theory Spec2Isabelle
  imports Main "HOL-Library.Word"
begin

section \<open>libperfmgr: EventNode\<close>

text \<open>
  \<^verbatim>\<open>EventNode.cc\<close> arbitrates between the request groups of one node. The class
  \<^verbatim>\<open>RequestGroup\<close> and the base class \<^verbatim>\<open>Node\<close> are declared elsewhere; of a group the
  code only calls \<^verbatim>\<open>GetExpireTime\<close>, \<^verbatim>\<open>GetRequestValue\<close> and \<^verbatim>\<open>DumpToFd\<close>. The state of a
  group is therefore a type parameter \<open>'g\<close> and the three methods are parameters of the
  embedding:
  \<^item> \<open>GetExpireTime g e\<close> is the call \<^verbatim>\<open>g.GetExpireTime(&expire_time)\<close> with \<open>e\<close> the value
    of \<^verbatim>\<open>expire_time\<close> before the call; it yields the returned flag, the value of
    \<^verbatim>\<open>expire_time\<close> after the call and the group after the call (the method is not const);
  \<^item> \<open>GetRequestValue g\<close> is the string the group holds.
  Every theorem below holds for all such functions. The fields of the node keep their
  names without the trailing underscore, and \<^verbatim>\<open>GetName()\<close> is the field \<^verbatim>\<open>name_\<close>.
\<close>

type_synonym milliseconds = int

definition milliseconds_max :: milliseconds where
  "milliseconds_max = 2 ^ 63 - 1"

record 'g Node =
  name :: string
  node_path :: string
  req_sorted :: "'g list"
  default_val_index :: nat
  reset_on_init :: bool
  current_val_index :: nat

text \<open>What a call leaves behind outside the node: the callback and the trace macros.\<close>

datatype event =
  Callback string string string
| AtraceInt string int
| AtraceBegin string
| AtraceEnd

text \<open>\<^verbatim>\<open>req_sorted_[i]\<close> with \<open>i\<close> beyond the vector is undefined behaviour; the model stops.\<close>

datatype fault = OutOfRange

subsection \<open>C strings and decimal printing (\<^verbatim>\<open>c_str()\<close>, \<^verbatim>\<open>std::to_string\<close>, \<^verbatim>\<open>%zu\<close>)\<close>

text \<open>
  What a reader of \<^verbatim>\<open>s.c_str()\<close> as a C string sees (\<^verbatim>\<open>%s\<close>, the trace macros, a
  \<^verbatim>\<open>std::string\<close> built from it): the bytes up to the first NUL byte.
\<close>

definition c_str :: "string \<Rightarrow> string" where
  "c_str s = takeWhile (\<lambda>c. c \<noteq> CHR 0x00) s"

definition digit_char :: "nat \<Rightarrow> char" where
  "digit_char d = ''0123456789'' ! d"

function string_of_nat :: "nat \<Rightarrow> string" where
  "string_of_nat n =
     (if n < 10 then [digit_char n] else string_of_nat (n div 10) @ [digit_char (n mod 10)])"
  by pat_completeness auto
termination
  by (relation "measure (\<lambda>n. n)") auto

declare string_of_nat.simps [simp del]

definition to_string :: "int \<Rightarrow> string" where
  "to_string i = (if i < 0 then CHR ''-'' # string_of_nat (nat (- i)) else string_of_nat (nat i))"

subsection \<open>The scan of \<^verbatim>\<open>Update\<close>\<close>

text \<open>
  \<^verbatim>\<open>for (i = 0; i < req_sorted_.size(); i++) if (req_sorted_[i].GetExpireTime(&expire_time))
  { value_index = i; break; }\<close>
  The loop from index \<open>i\<close> on, with the current \<open>value_index\<close> and \<open>expire_time\<close>.
\<close>

function find_request ::
  "('g \<Rightarrow> milliseconds \<Rightarrow> bool \<times> milliseconds \<times> 'g) \<Rightarrow> 'g list \<Rightarrow> nat \<Rightarrow> nat \<Rightarrow> milliseconds
     \<Rightarrow> nat \<times> milliseconds \<times> 'g list" where
  "find_request GetExpireTime reqs i value_index expire_time =
     (if i < length reqs then
        (case GetExpireTime (reqs ! i) expire_time of
           (active, expire_time', g') \<Rightarrow>
             if active then (i, expire_time', reqs[i := g'])
             else find_request GetExpireTime (reqs[i := g']) (Suc i) value_index expire_time')
      else (value_index, expire_time, reqs))"
  by pat_completeness auto
termination
  by (relation "measure (\<lambda>(GetExpireTime, reqs, i, value_index, expire_time). length reqs - i)") auto

declare find_request.simps [simp del]

text \<open>
  \<^verbatim>\<open>EventNode::Update(bool)\<close>. The argument is unnamed and unused. \<open>atrace\<close> holds the
  results of the two calls of \<^verbatim>\<open>ATRACE_ENABLED()\<close>. \<^verbatim>\<open>ATRACE_INT\<close> takes a 32-bit signed
  value, so the index is narrowed; the trace labels are passed as C strings. The callback is
  taken to return. The result is the
  returned duration, the events in order and the node after the call.
\<close>

definition Update ::
  "('g \<Rightarrow> milliseconds \<Rightarrow> bool \<times> milliseconds \<times> 'g) \<Rightarrow> ('g \<Rightarrow> string) \<Rightarrow> bool \<times> bool \<Rightarrow> 'g Node
     \<Rightarrow> fault + (milliseconds \<times> event list \<times> 'g Node)" where
  "Update GetExpireTime GetRequestValue atrace n =
     (case find_request GetExpireTime (req_sorted n) 0 (default_val_index n) milliseconds_max of
        (value_index, expire_time, reqs) \<Rightarrow>
          if value_index \<noteq> current_val_index n \<or> reset_on_init n then
            if value_index < length reqs then
              let req_value = GetRequestValue (reqs ! value_index) in
              Inr (expire_time,
                   (if fst atrace then
                      [AtraceInt (c_str (''N:'' @ name n)) (sint (word_of_nat value_index :: 32 word)),
                       AtraceBegin
                         (c_str (name n @ '':'' @ req_value @ '':'' @ to_string expire_time))]
                    else [])
                   @ [Callback (name n) (node_path n) req_value]
                   @ (if snd atrace then [AtraceEnd] else []),
                   n\<lparr>req_sorted := reqs, current_val_index := value_index, reset_on_init := False\<rparr>)
            else Inl OutOfRange
          else Inr (expire_time, [], n\<lparr>req_sorted := reqs\<rparr>))"

text \<open>The value of the local \<^verbatim>\<open>value_index\<close> after the loop of \<^verbatim>\<open>Update\<close>.\<close>

definition value_index_of ::
  "('g \<Rightarrow> milliseconds \<Rightarrow> bool \<times> milliseconds \<times> 'g) \<Rightarrow> 'g Node \<Rightarrow> nat" where
  "value_index_of GetExpireTime n =
     fst (find_request GetExpireTime (req_sorted n) 0 (default_val_index n) milliseconds_max)"

subsection \<open>Vocabulary for the statements about the scan\<close>

text \<open>
  \<open>all_inactive GetExpireTime gs e\<close>: called one after the other on the groups \<open>gs\<close>,
  starting with \<^verbatim>\<open>expire_time\<close> = \<open>e\<close>, every \<^verbatim>\<open>GetExpireTime\<close> returns false.
  \<open>expire_after\<close> is the value of \<^verbatim>\<open>expire_time\<close> after these calls and \<open>groups_after\<close>
  are the groups after them.
\<close>

fun all_inactive ::
  "('g \<Rightarrow> milliseconds \<Rightarrow> bool \<times> milliseconds \<times> 'g) \<Rightarrow> 'g list \<Rightarrow> milliseconds \<Rightarrow> bool" where
  "all_inactive GetExpireTime [] e = True"
| "all_inactive GetExpireTime (g # gs) e =
     (\<not> fst (GetExpireTime g e) \<and> all_inactive GetExpireTime gs (fst (snd (GetExpireTime g e))))"

fun expire_after ::
  "('g \<Rightarrow> milliseconds \<Rightarrow> bool \<times> milliseconds \<times> 'g) \<Rightarrow> 'g list \<Rightarrow> milliseconds \<Rightarrow> milliseconds" where
  "expire_after GetExpireTime [] e = e"
| "expire_after GetExpireTime (g # gs) e =
     expire_after GetExpireTime gs (fst (snd (GetExpireTime g e)))"

fun groups_after ::
  "('g \<Rightarrow> milliseconds \<Rightarrow> bool \<times> milliseconds \<times> 'g) \<Rightarrow> 'g list \<Rightarrow> milliseconds \<Rightarrow> 'g list" where
  "groups_after GetExpireTime [] e = []"
| "groups_after GetExpireTime (g # gs) e =
     snd (snd (GetExpireTime g e)) # groups_after GetExpireTime gs (fst (snd (GetExpireTime g e)))"

text \<open>The events of a call without the trace macros.\<close>

fun is_callback :: "event \<Rightarrow> bool" where
  "is_callback (Callback a b c) = True"
| "is_callback e = False"

definition callbacks :: "event list \<Rightarrow> event list" where
  "callbacks es = filter is_callback es"

subsection \<open>\<^verbatim>\<open>DumpToFd\<close>\<close>

text \<open>
  \<^verbatim>\<open>EventNode::DumpToFd(int fd) const\<close>. \<open>'w\<close> is the state of the world outside the node
  (what the file descriptors hold). \<open>WriteStringToFd buf fd w\<close> yields whether the write
  succeeded and the world after it; \<open>GroupDumpToFd g fd prefix w\<close> is the group's own
  dump (a const method, as \<^verbatim>\<open>DumpToFd\<close> is), called for the indices \<open>0\<close> up to the size
  in order. The result is the lines logged with \<^verbatim>\<open>LOG(ERROR)\<close>, the world and the node
  after the call.
\<close>

definition dump_header :: "'g Node \<Rightarrow> string \<Rightarrow> string" where
  "dump_header n node_value =
     ''Node Name'' @ [CHR 0x09] @ ''Event Path'' @ [CHR 0x09] @ ''Current Index'' @ [CHR 0x09]
     @ ''Current Value'' @ [CHR 0x0A]
     @ c_str (name n) @ [CHR 0x09] @ c_str (node_path n) @ [CHR 0x09]
     @ string_of_nat (current_val_index n) @ [CHR 0x09] @ c_str node_value @ [CHR 0x0A]"

definition req_prefix :: "nat \<Rightarrow> string" where
  "req_prefix i = [CHR 0x09, CHR 0x09] @ ''Req'' @ string_of_nat i @ '':'' @ [CHR 0x09]"

definition DumpToFd ::
  "('g \<Rightarrow> string) \<Rightarrow> (string \<Rightarrow> int \<Rightarrow> 'w \<Rightarrow> bool \<times> 'w) \<Rightarrow> ('g \<Rightarrow> int \<Rightarrow> string \<Rightarrow> 'w \<Rightarrow> 'w)
     \<Rightarrow> 'g Node \<Rightarrow> int \<Rightarrow> 'w \<Rightarrow> fault + (string list \<times> 'w \<times> 'g Node)" where
  "DumpToFd GetRequestValue WriteStringToFd GroupDumpToFd n fd w =
     (if current_val_index n < length (req_sorted n) then
        let node_value = GetRequestValue (req_sorted n ! current_val_index n);
            buf = dump_header n node_value;
            (ok, w1) = WriteStringToFd buf fd w;
            logged = (if \<not> ok then [''Failed to dump fd: '' @ to_string fd] else [])
        in Inr (logged,
                foldl (\<lambda>w' i. GroupDumpToFd (req_sorted n ! i) fd (req_prefix i) w') w1
                  [0 ..< length (req_sorted n)],
                n)
      else Inl OutOfRange)"

subsection \<open>A concrete group for closed instances\<close>

text \<open>
  A group that is a triple: whether a request is outstanding, its remaining time and the
  value. An idle group writes the maximum into \<^verbatim>\<open>expire_time\<close>.
\<close>

definition ex_GetExpireTime ::
  "bool \<times> milliseconds \<times> string \<Rightarrow> milliseconds \<Rightarrow> bool \<times> milliseconds \<times> (bool \<times> milliseconds \<times> string)" where
  "ex_GetExpireTime g e = (fst g, (if fst g then fst (snd g) else milliseconds_max), g)"

definition ex_GetRequestValue :: "bool \<times> milliseconds \<times> string \<Rightarrow> string" where
  "ex_GetRequestValue g = snd (snd g)"

definition ex_busy :: "(bool \<times> milliseconds \<times> string) Node" where
  "ex_busy = \<lparr>name = ''cpu'', node_path = ''/dev/cpu'',
     req_sorted = [(False, 0, ''high''), (True, 500, ''mid''), (True, 100, ''low''), (False, 0, ''def'')],
     default_val_index = 3, reset_on_init = False, current_val_index = 3\<rparr>"

definition ex_idle :: "(bool \<times> milliseconds \<times> string) Node" where
  "ex_idle = \<lparr>name = ''cpu'', node_path = ''/dev/cpu'',
     req_sorted = [(False, 0, ''high''), (False, 0, ''def'')],
     default_val_index = 1, reset_on_init = True, current_val_index = 1\<rparr>"

text \<open>
  A group whose lease runs out: the number of calls of \<^verbatim>\<open>GetExpireTime\<close> for which its
  request is still live, and the value. Nothing is submitted to the group or withdrawn
  from it; each call only finds the clock further on.
\<close>

definition ex_lease_GetExpireTime ::
  "nat \<times> string \<Rightarrow> milliseconds \<Rightarrow> bool \<times> milliseconds \<times> (nat \<times> string)" where
  "ex_lease_GetExpireTime g e =
     (if 0 < fst g then (True, 500, (fst g - 1, snd g)) else (False, milliseconds_max, g))"

definition ex_lease :: "(nat \<times> string) Node" where
  "ex_lease = \<lparr>name = ''cpu'', node_path = ''/dev/cpu'',
     req_sorted = [(1, ''boost''), (0, ''def'')],
     default_val_index = 1, reset_on_init = False, current_val_index = 1\<rparr>"

text \<open>A file descriptor world for the dump: the strings written, and a write that fails.\<close>

definition ex_write_fails :: "string \<Rightarrow> int \<Rightarrow> string list \<Rightarrow> bool \<times> string list" where
  "ex_write_fails buf fd w = (False, w)"

definition ex_GroupDumpToFd ::
  "bool \<times> milliseconds \<times> string \<Rightarrow> int \<Rightarrow> string \<Rightarrow> string list \<Rightarrow> string list" where
  "ex_GroupDumpToFd g fd prefix w = w @ [prefix @ snd (snd g)]"

section \<open>pixelstats: BrownoutDetectedReporter\<close>

subsection \<open>The library: \<^verbatim>\<open>std::regex_match\<close>, \<^verbatim>\<open>std::stoi\<close>\<close>

text \<open>
  The patterns of \<^verbatim>\<open>BrownoutDetectedReporter.cpp\<close> are sequences of single characters,
  character classes, \<open>+\<close> on a class, and groups that do not nest. An \<open>atom\<close> matches one
  character: a literal, one of a set (\<^verbatim>\<open>\d\<close>, \<^verbatim>\<open>\s\<close>, \<^verbatim>\<open>[A-Z1-9]\<close>) or none of a set
  (\<^verbatim>\<open>\S\<close>). The anchors \<^verbatim>\<open>^\<close> and \<^verbatim>\<open>$\<close> are left out: \<^verbatim>\<open>std::regex_match\<close> matches the
  whole line anyway.
\<close>

datatype atom = Lit char | AnyOf string | NoneOf string

datatype item = One atom | Plus atom | GroupOpen | GroupClose

type_synonym regex = "item list"

fun atom_ok :: "atom \<Rightarrow> char \<Rightarrow> bool" where
  "atom_ok (Lit l) c = (c = l)"
| "atom_ok (AnyOf cs) c = (c \<in> set cs)"
| "atom_ok (NoneOf cs) c = (c \<notin> set cs)"

text \<open>
  The backtracking match of ECMAScript: \<open>+\<close> is greedy, it takes one more character first
  and gives it back when the rest does not match. \<open>caps\<close> are the groups closed so far and
  \<open>cur\<close> is the text of the group that is open.
\<close>

fun rmatch :: "regex \<Rightarrow> string \<Rightarrow> string list \<Rightarrow> string option \<Rightarrow> string list option" where
  "rmatch [] s caps cur = (if s = [] then Some caps else None)"
| "rmatch (GroupOpen # p) s caps cur = rmatch p s caps (Some [])"
| "rmatch (GroupClose # p) s caps cur =
     rmatch p s (caps @ [case cur of Some t \<Rightarrow> t | None \<Rightarrow> []]) None"
| "rmatch (One a # p) [] caps cur = None"
| "rmatch (One a # p) (c # s) caps cur =
     (if atom_ok a c then rmatch p s caps (map_option (\<lambda>t. t @ [c]) cur) else None)"
| "rmatch (Plus a # p) [] caps cur = None"
| "rmatch (Plus a # p) (c # s) caps cur =
     (if atom_ok a c then
        (case rmatch (Plus a # p) s caps (map_option (\<lambda>t. t @ [c]) cur) of
           Some r \<Rightarrow> Some r
         | None \<Rightarrow> rmatch p s caps (map_option (\<lambda>t. t @ [c]) cur))
      else None)"

text \<open>
  \<^verbatim>\<open>std::regex_match(line, pattern_match, pattern)\<close>: \<open>None\<close> when the line does not match,
  otherwise the sub-matches, the whole line at index 0.
\<close>

definition regex_match :: "string \<Rightarrow> regex \<Rightarrow> string list option" where
  "regex_match line pattern = map_option (\<lambda>caps. line # caps) (rmatch pattern line [] None)"

definition digit_chars :: string where
  "digit_chars = ''0123456789''"

definition space_chars :: string where
  "space_chars = [CHR '' '', CHR 0x09, CHR 0x0A, CHR 0x0B, CHR 0x0C, CHR 0x0D]"

definition lits :: "string \<Rightarrow> regex" where
  "lits w = map (\<lambda>c. One (Lit c)) w"

definition group :: "regex \<Rightarrow> regex" where
  "group p = GroupOpen # p @ [GroupClose]"

abbreviation "Digit \<equiv> AnyOf digit_chars"
abbreviation "Space \<equiv> AnyOf space_chars"
abbreviation "NonSpace \<equiv> NoneOf space_chars"

text \<open>The patterns, in the order of the source.\<close>

definition kTimestampPattern :: regex where
  "kTimestampPattern =
     [Plus NonSpace, One Space, Plus Digit, One (Lit CHR '':''), Plus Digit, One (Lit CHR '':''),
      Plus Digit, Plus NonSpace]"

definition kIrqPattern :: regex where
  "kIrqPattern =
     group [Plus NonSpace] @ [One Space] @ lits ''triggered'' @ [One Space] @ lits ''at''
     @ [One Space, Plus NonSpace]"

definition kOdpmPattern :: regex where
  "kOdpmPattern =
     lits ''CH'' @ [Plus Digit] @ lits ''['' @ group [Plus NonSpace] @ lits ''],'' @ [One Space]
     @ group [Plus Digit]"

definition kDvfsPattern :: regex where
  "kDvfsPattern =
     group [Plus (AnyOf ''ABCDEFGHIJKLMNOPQRSTUVWXYZ123456789'')] @ lits '':'' @ group [Plus Digit]"

definition kFgPattern :: regex where
  "kFgPattern = group (lits ''voltage_now'') @ lits '':'' @ group [Plus Digit]"

definition kBatteryTempPattern :: regex where
  "kBatteryTempPattern = group (lits ''battery'') @ lits '':'' @ group [Plus Digit]"

definition kBatteryCyclePattern :: regex where
  "kBatteryCyclePattern = group (lits ''battery_cycle'') @ lits '':'' @ group [Plus Digit]"

definition kBatterySocPattern :: regex where
  "kBatterySocPattern = group (lits ''soc'') @ lits '':'' @ group [Plus Digit]"

definition kAlreadyUpdatedPattern :: regex where
  "kAlreadyUpdatedPattern = group (lits ''LASTMEAL_UPDATED'')"

text \<open>
  What the reporter does not catch: the exceptions of \<^verbatim>\<open>std::stoi\<close>, and a read outside a
  vector or an array (undefined behaviour). The model stops with the cause.
\<close>

datatype abort = invalid_argument | out_of_range | out_of_bounds

definition INT_MAX :: int where
  "INT_MAX = 2 ^ 31 - 1"

definition INT_MIN :: int where
  "INT_MIN = - (2 ^ 31)"

definition digit_val :: "char \<Rightarrow> int" where
  "digit_val c = of_char c - 48"

definition decimal :: "string \<Rightarrow> int" where
  "decimal ds = foldl (\<lambda>v c. 10 * v + digit_val c) 0 ds"

text \<open>
  The number \<^verbatim>\<open>strtol\<close> reads in base 10 before any range check: white space, a sign,
  digits; \<open>None\<close> when there is no digit.
\<close>

definition scan_number :: "string \<Rightarrow> int option" where
  "scan_number s =
     (let t = dropWhile (\<lambda>c. c \<in> set space_chars) s;
          neg = (t \<noteq> [] \<and> hd t = CHR ''-'');
          u = (if t \<noteq> [] \<and> (hd t = CHR ''-'' \<or> hd t = CHR ''+'') then tl t else t);
          ds = takeWhile (\<lambda>c. c \<in> set digit_chars) u
      in if ds = [] then None
         else Some (if neg then - decimal ds else decimal ds))"

text \<open>\<^verbatim>\<open>std::stoi\<close>: \<^verbatim>\<open>std::invalid_argument\<close> without a digit, \<^verbatim>\<open>std::out_of_range\<close> outside \<^verbatim>\<open>int\<close>.\<close>

definition stoi :: "string \<Rightarrow> abort + int" where
  "stoi s =
     (case scan_number s of
        None \<Rightarrow> Inl invalid_argument
      | Some v \<Rightarrow> if v < INT_MIN \<or> INT_MAX < v then Inl out_of_range else Inr v)"

subsection \<open>\<^verbatim>\<open>updateIfFound\<close>\<close>

definition READING_IDX :: nat where
  "READING_IDX = 2"

definition KEY_IDX :: nat where
  "KEY_IDX = 0"

definition DEFAULT_BATTERY_TEMP :: int where
  "DEFAULT_BATTERY_TEMP = 9999999"

definition DEFAULT_BATTERY_SOC :: int where
  "DEFAULT_BATTERY_SOC = 100"

definition DEFAULT_BATTERY_VOLT :: int where
  "DEFAULT_BATTERY_VOLT = 5000000"

text \<open>The enumeration \<^verbatim>\<open>Update\<close> of the reporter's header; the code tests for \<^verbatim>\<open>kUpdateMax\<close> only.\<close>

datatype Update_flag = kUpdateMax | kUpdateMin

text \<open>
  \<^verbatim>\<open>updateIfFound(line, pattern, current_value, flag)\<close>: the returned flag and the value of
  \<^verbatim>\<open>*current_value\<close> after the call.
\<close>

definition updateIfFound :: "string \<Rightarrow> regex \<Rightarrow> int \<Rightarrow> Update_flag \<Rightarrow> abort + (bool \<times> int)" where
  "updateIfFound line pattern current_value flag =
     (case regex_match line pattern of
        None \<Rightarrow> Inr (False, current_value)
      | Some pattern_match \<Rightarrow>
          if length pattern_match < READING_IDX + 1 then Inr (False, current_value)
          else
            (case stoi (pattern_match ! READING_IDX) of
               Inl x \<Rightarrow> Inl x
             | Inr reading \<Rightarrow>
                 if flag = kUpdateMax then
                   (if current_value < reading then Inr (True, reading)
                    else Inr (True, current_value))
                 else
                   (if current_value > reading then Inr (True, reading)
                    else Inr (True, current_value))))"

subsection \<open>What the reporter gets from outside\<close>

text \<open>
  The header \<^verbatim>\<open>BrownoutDetectedReporter.h\<close> and the generated \<^verbatim>\<open>pixelatoms.pb.h\<close> are not
  part of the sources read here. Their constants are fields of \<open>env\<close>: the numbers of the
  enumeration \<^verbatim>\<open>BrownoutDetected\<close> (\<open>reason_number\<close>, \<open>irq_number\<close>), the header's own
  numbering of the interrupts (\<open>irq_index\<close>), the sizes of the two arrays and the columns of
  the CSV file. So are the file system, the system properties and \<^verbatim>\<open>parseTimestamp\<close>, which
  rests on \<^verbatim>\<open>strptime\<close> and \<^verbatim>\<open>mktime\<close>.
\<close>

datatype BrownoutReason =
  UVLO_IF | OCP_IF | OCP2_IF | UVLO_MAIN | UVLO_SUB
| OCP_B1M | OCP_B2M | OCP_B3M | OCP_B4M | OCP_B5M | OCP_B6M | OCP_B7M | OCP_B8M | OCP_B9M | OCP_B10M
| OCP_B1S | OCP_B2S | OCP_B3S | OCP_B4S | OCP_B5S | OCP_B6S | OCP_B7S | OCP_B8S | OCP_B9S | OCP_B10S
| OCP_BAS | OCP_BBS | OCP_BCS | OCP_BDS

datatype Irq = SMPL_WARN | UVLO1 | UVLO2 | BATOILO | BATOILO2

record env =
  ReadFileToString :: "string \<Rightarrow> string option"
  GetProperty :: "string \<Rightarrow> string"
  parseTimestamp :: "string \<Rightarrow> int"
  reason_number :: "BrownoutReason \<Rightarrow> int"
  irq_number :: "Irq \<Rightarrow> int"
  irq_index :: "Irq \<Rightarrow> int"
  DVFS_MAX_IDX :: nat
  ODPM_MAX_IDX :: nat
  TIMESTAMP_IDX :: nat
  IRQ_IDX :: nat
  SOC_IDX :: nat
  TEMP_IDX :: nat
  CYCLE_IDX :: nat
  VOLTAGE_IDX :: nat
  DVFS_CHANNEL_0 :: nat
  ODPM_CHANNEL_0 :: nat
  EVT_CNT_IDX_OILO1 :: nat
  EVT_CNT_IDX_OILO2 :: nat
  EVT_CNT_IDX_UVLO1 :: nat
  EVT_CNT_IDX_UVLO2 :: nat
  MAX_CURR :: nat
  IDX_VIMON_V :: nat
  IDX_VIMON_I :: nat

record BrownoutDetectedInfo =
  triggered_irq :: int
  triggered_timestamp :: int
  battery_temp :: int
  battery_soc :: int
  battery_cycle :: int
  voltage_now :: int
  odpm_value :: "int list"
  dvfs_value :: "int list"
  brownout_reason :: int
  max_curr :: int
  evt_cnt_uvlo1 :: int
  evt_cnt_uvlo2 :: int
  evt_cnt_oilo1 :: int
  evt_cnt_oilo2 :: int
  vimon_vbatt :: int
  vimon_ibatt :: int
  mitigation_method_0 :: int
  mitigation_method_0_count :: int
  mitigation_method_0_time_us :: int

text \<open>What a run does to the outside, in order.\<close>

datatype action =
  WriteStringToFile string string
| uploadData BrownoutDetectedInfo

definition kBrownoutReason :: "(string \<times> BrownoutReason) list" where
  "kBrownoutReason =
     [(''uvlo,pmic,if'', UVLO_IF), (''ocp,pmic,if'', OCP_IF), (''ocp2,pmic,if'', OCP2_IF),
      (''uvlo,pmic,main'', UVLO_MAIN), (''uvlo,pmic,sub'', UVLO_SUB),
      (''ocp,buck1m'', OCP_B1M), (''ocp,buck2m'', OCP_B2M), (''ocp,buck3m'', OCP_B3M),
      (''ocp,buck4m'', OCP_B4M), (''ocp,buck5m'', OCP_B5M), (''ocp,buck6m'', OCP_B6M),
      (''ocp,buck7m'', OCP_B7M), (''ocp,buck8m'', OCP_B8M), (''ocp,buck9m'', OCP_B9M),
      (''ocp,buck10m'', OCP_B10M),
      (''ocp,buck1s'', OCP_B1S), (''ocp,buck2s'', OCP_B2S), (''ocp,buck3s'', OCP_B3S),
      (''ocp,buck4s'', OCP_B4S), (''ocp,buck5s'', OCP_B5S), (''ocp,buck6s'', OCP_B6S),
      (''ocp,buck7s'', OCP_B7S), (''ocp,buck8s'', OCP_B8S), (''ocp,buck9s'', OCP_B9S),
      (''ocp,buck10s'', OCP_B10S),
      (''ocp,buckas'', OCP_BAS), (''ocp,buckbs'', OCP_BBS), (''ocp,buckcs'', OCP_BCS),
      (''ocp,buckds'', OCP_BDS)]"

definition brownoutReasonCheck :: "env \<Rightarrow> string \<Rightarrow> int" where
  "brownoutReasonCheck E brownoutReasonProp =
     (let reason = GetProperty E (c_str brownoutReasonProp) in
      if reason = [] then - 1
      else (case map_of kBrownoutReason reason of
              None \<Rightarrow> - 1
            | Some key \<Rightarrow> reason_number E key))"

text \<open>
  \<^verbatim>\<open>atoi\<close> as the C library of the platform has it: \<^verbatim>\<open>(int) strtol(s, NULL, 10)\<close>, that is
  0 without a digit, the \<^verbatim>\<open>long\<close> range cut off, and the low 32 bits kept.
\<close>

definition atoi :: "string \<Rightarrow> int" where
  "atoi s =
     (case scan_number s of
        None \<Rightarrow> 0
      | Some v \<Rightarrow> sint (word_of_int (max (- (2 ^ 63)) (min (2 ^ 63 - 1) v)) :: 32 word))"

definition parseIRQ :: "env \<Rightarrow> string \<Rightarrow> int" where
  "parseIRQ E element =
     (let idx = atoi element in
      if idx = irq_index E SMPL_WARN then irq_number E SMPL_WARN
      else if idx = irq_index E UVLO1 then irq_number E UVLO1
      else if idx = irq_index E UVLO2 then irq_number E UVLO2
      else if idx = irq_index E BATOILO then irq_number E BATOILO
      else if idx = irq_index E BATOILO2 then irq_number E BATOILO2
      else - 1)"

text \<open>
  \<^verbatim>\<open>while (std::getline(stream, piece, delim))\<close>: the pieces between the delimiters; a last
  piece that is empty is not delivered.
\<close>

fun split_on :: "char \<Rightarrow> string \<Rightarrow> string \<Rightarrow> string list" where
  "split_on d cur [] = (if cur = [] then [] else [cur])"
| "split_on d cur (c # s) = (if c = d then cur # split_on d [] s else split_on d (cur @ [c]) s)"

definition getlines :: "string \<Rightarrow> string list" where
  "getlines content = split_on (CHR 0x0A) [] content"

text \<open>\<^verbatim>\<open>s.find(w) != std::string::npos\<close>.\<close>

fun contains :: "string \<Rightarrow> string \<Rightarrow> bool" where
  "contains [] w = (w = [])"
| "contains (c # s) w = (take (length w) (c # s) = w \<or> contains s w)"

text \<open>
  \<^verbatim>\<open>struct BrownoutDetectedInfo max_value = {}\<close> with the three defaults and the reason, as
  both functions set it up before their loop.
\<close>

definition initial_max_value :: "env \<Rightarrow> int \<Rightarrow> BrownoutDetectedInfo" where
  "initial_max_value E reason =
     \<lparr>triggered_irq = 0, triggered_timestamp = 0, battery_temp = DEFAULT_BATTERY_TEMP,
      battery_soc = DEFAULT_BATTERY_SOC, battery_cycle = 0, voltage_now = DEFAULT_BATTERY_VOLT,
      odpm_value = replicate (ODPM_MAX_IDX E) 0, dvfs_value = replicate (DVFS_MAX_IDX E) 0,
      brownout_reason = reason, max_curr = 0, evt_cnt_uvlo1 = 0, evt_cnt_uvlo2 = 0,
      evt_cnt_oilo1 = 0, evt_cnt_oilo2 = 0, vimon_vbatt = 0, vimon_ibatt = 0,
      mitigation_method_0 = 0, mitigation_method_0_count = 0, mitigation_method_0_time_us = 0\<rparr>"

text \<open>How one pass through a loop body ends, and how the loop ends.\<close>

datatype 's body_end = Return | Continue 's

datatype loop_end = Returned | Ended bool BrownoutDetectedInfo

subsection \<open>\<^verbatim>\<open>logBrownout\<close>\<close>

text \<open>
  The body of the loop of \<^verbatim>\<open>logBrownout\<close> behind the test for \<^verbatim>\<open>LASTMEAL_UPDATED\<close>. The state
  is \<^verbatim>\<open>odpm_index\<close>, \<^verbatim>\<open>dvfs_index\<close> and \<^verbatim>\<open>max_value\<close>. \<^verbatim>\<open>irq\<close> is the sub-match \<^verbatim>\<open>KEY_IDX\<close>,
  the whole line.
\<close>

definition log_irq :: "env \<Rightarrow> string \<Rightarrow> BrownoutDetectedInfo \<Rightarrow> BrownoutDetectedInfo" where
  "log_irq E irq mv =
     (if contains irq ''batoilo'' then mv\<lparr>triggered_irq := irq_number E BATOILO\<rparr>
      else if contains irq ''vdroop1'' then mv\<lparr>triggered_irq := irq_number E UVLO1\<rparr>
      else if contains irq ''vdroop2'' then mv\<lparr>triggered_irq := irq_number E UVLO2\<rparr>
      else if contains irq ''smpl_gm'' then mv\<lparr>triggered_irq := irq_number E SMPL_WARN\<rparr>
      else mv)"

text \<open>The two array cases: the slot \<open>i\<close> of the array is updated and the index moves on.\<close>

definition log_channel ::
  "string \<Rightarrow> regex \<Rightarrow> nat \<Rightarrow> nat \<Rightarrow> int list \<Rightarrow> abort + (bool \<times> nat \<times> int list)" where
  "log_channel line pattern MAX_IDX i arr =
     (if i < length arr then
        (case updateIfFound line pattern (arr ! i) kUpdateMax of
           Inl x \<Rightarrow> Inl x
         | Inr (found, v) \<Rightarrow>
             if found then Inr (True, (if Suc i = MAX_IDX then 0 else Suc i), arr[i := v])
             else Inr (False, i, arr[i := v]))
      else Inl out_of_bounds)"

definition log_line ::
  "env \<Rightarrow> string \<Rightarrow> nat \<times> nat \<times> BrownoutDetectedInfo
     \<Rightarrow> abort + (nat \<times> nat \<times> BrownoutDetectedInfo) body_end" where
  "log_line E line st =
     (case st of (odpm_index, dvfs_index, mv) \<Rightarrow>
      (case regex_match line kIrqPattern of
         Some pattern_match \<Rightarrow>
           if length pattern_match < KEY_IDX + 1 then Inr Return
           else Inr (Continue (odpm_index, dvfs_index, log_irq E (pattern_match ! KEY_IDX) mv))
       | None \<Rightarrow>
      if regex_match line kTimestampPattern \<noteq> None then
        Inr (Continue (odpm_index, dvfs_index,
               mv\<lparr>triggered_timestamp := parseTimestamp E (c_str line)\<rparr>))
      else
      (case updateIfFound line kBatterySocPattern (battery_soc mv) kUpdateMin of
         Inl x \<Rightarrow> Inl x
       | Inr (found, v) \<Rightarrow>
      if found then Inr (Continue (odpm_index, dvfs_index, mv\<lparr>battery_soc := v\<rparr>))
      else
      (case updateIfFound line kBatteryTempPattern (battery_temp mv) kUpdateMin of
         Inl x \<Rightarrow> Inl x
       | Inr (found, v) \<Rightarrow>
      if found then Inr (Continue (odpm_index, dvfs_index, mv\<lparr>battery_temp := v\<rparr>))
      else
      (case updateIfFound line kBatteryCyclePattern (battery_cycle mv) kUpdateMax of
         Inl x \<Rightarrow> Inl x
       | Inr (found, v) \<Rightarrow>
      if found then Inr (Continue (odpm_index, dvfs_index, mv\<lparr>battery_cycle := v\<rparr>))
      else
      (case updateIfFound line kFgPattern (voltage_now mv) kUpdateMin of
         Inl x \<Rightarrow> Inl x
       | Inr (found, v) \<Rightarrow>
      if found then Inr (Continue (odpm_index, dvfs_index, mv\<lparr>voltage_now := v\<rparr>))
      else
      (case log_channel line kDvfsPattern (DVFS_MAX_IDX E) dvfs_index (dvfs_value mv) of
         Inl x \<Rightarrow> Inl x
       | Inr (found, dvfs_index', dvfs) \<Rightarrow>
      if found then Inr (Continue (odpm_index, dvfs_index', mv\<lparr>dvfs_value := dvfs\<rparr>))
      else
      (case log_channel line kOdpmPattern (ODPM_MAX_IDX E) odpm_index (odpm_value mv) of
         Inl x \<Rightarrow> Inl x
       | Inr (found, odpm_index', odpm) \<Rightarrow>
          Inr (Continue (odpm_index', dvfs_index, mv\<lparr>odpm_value := odpm\<rparr>))))))))))"

text \<open>\<^verbatim>\<open>while (std::getline(content, line))\<close> of \<^verbatim>\<open>logBrownout\<close>.\<close>

fun log_loop ::
  "env \<Rightarrow> string list \<Rightarrow> nat \<times> nat \<times> BrownoutDetectedInfo \<Rightarrow> abort + loop_end" where
  "log_loop E [] st = Inr (Ended False (snd (snd st)))"
| "log_loop E (line # rest) st =
     (if regex_match line kAlreadyUpdatedPattern \<noteq> None then Inr (Ended True (snd (snd st)))
      else
        (case log_line E line st of
           Inl x \<Rightarrow> Inl x
         | Inr Return \<Rightarrow> Inr Returned
         | Inr (Continue st') \<Rightarrow> log_loop E rest st'))"

definition LASTMEAL_UPDATED_line :: string where
  "LASTMEAL_UPDATED_line = ''LASTMEAL_UPDATED'' @ [CHR 0x0A]"

definition logBrownout :: "env \<Rightarrow> string \<Rightarrow> string \<Rightarrow> abort + action list" where
  "logBrownout E logFilePath brownoutReasonProp =
     (case ReadFileToString E logFilePath of
        None \<Rightarrow> Inr []
      | Some logFile \<Rightarrow>
          let max_value = initial_max_value E (brownoutReasonCheck E brownoutReasonProp) in
          if brownout_reason max_value < 0 then Inr []
          else
            (case log_loop E (getlines logFile) (0, 0, max_value) of
               Inl x \<Rightarrow> Inl x
             | Inr Returned \<Rightarrow> Inr []
             | Inr (Ended isAlreadyUpdated max_value') \<Rightarrow>
                 if \<not> isAlreadyUpdated \<and> battery_temp max_value' \<noteq> DEFAULT_BATTERY_TEMP then
                   Inr [WriteStringToFile (LASTMEAL_UPDATED_line @ logFile) logFilePath,
                        uploadData max_value']
                 else Inr []))"

subsection \<open>\<^verbatim>\<open>logBrownoutCsv\<close>\<close>

text \<open>\<^verbatim>\<open>row[i]\<close> on the vector of fields; outside the vector the behaviour is undefined.\<close>

definition at :: "string list \<Rightarrow> nat \<Rightarrow> abort + string" where
  "at row i = (if i < length row then Inr (row ! i) else Inl out_of_bounds)"

definition bind_abort :: "abort + 'a \<Rightarrow> ('a \<Rightarrow> abort + 'b) \<Rightarrow> abort + 'b" where
  "bind_abort m f = (case m of Inl x \<Rightarrow> Inl x | Inr v \<Rightarrow> f v)"

text \<open>\<^verbatim>\<open>for (i = 0; i < MAX_IDX; i++) arr[i] = atoi(row[i + CHANNEL_0].c_str());\<close>\<close>

fun fill_channels :: "string list \<Rightarrow> nat \<Rightarrow> nat list \<Rightarrow> int list \<Rightarrow> abort + int list" where
  "fill_channels row CHANNEL_0 [] arr = Inr arr"
| "fill_channels row CHANNEL_0 (i # is) arr =
     (if i + CHANNEL_0 < length row \<and> i < length arr then
        fill_channels row CHANNEL_0 is (arr[i := atoi (row ! (i + CHANNEL_0))])
      else Inl out_of_bounds)"

text \<open>The body of the loop of \<^verbatim>\<open>logBrownoutCsv\<close> from the first use of \<^verbatim>\<open>row\<close> on.\<close>

definition csv_row :: "env \<Rightarrow> string list \<Rightarrow> BrownoutDetectedInfo \<Rightarrow> abort + BrownoutDetectedInfo" where
  "csv_row E row mv =
     bind_abort (at row (TIMESTAMP_IDX E)) (\<lambda>timestamp.
     bind_abort (at row (IRQ_IDX E)) (\<lambda>irq.
     bind_abort (at row (SOC_IDX E)) (\<lambda>soc.
     bind_abort (at row (TEMP_IDX E)) (\<lambda>temp.
     bind_abort (at row (CYCLE_IDX E)) (\<lambda>cycle.
     bind_abort (at row (VOLTAGE_IDX E)) (\<lambda>voltage.
     bind_abort (fill_channels row (DVFS_CHANNEL_0 E) [0 ..< DVFS_MAX_IDX E] (dvfs_value mv)) (\<lambda>dvfs.
     bind_abort (fill_channels row (ODPM_CHANNEL_0 E) [0 ..< ODPM_MAX_IDX E] (odpm_value mv)) (\<lambda>odpm.
     bind_abort
       (if MAX_CURR E < length row then
          bind_abort (at row (EVT_CNT_IDX_OILO1 E)) (\<lambda>oilo1.
          bind_abort (at row (EVT_CNT_IDX_OILO2 E)) (\<lambda>oilo2.
          bind_abort (at row (EVT_CNT_IDX_UVLO1 E)) (\<lambda>uvlo1.
          bind_abort (at row (EVT_CNT_IDX_UVLO2 E)) (\<lambda>uvlo2.
          Inr (mv\<lparr>triggered_timestamp := parseTimestamp E (c_str timestamp),
                  triggered_irq := parseIRQ E irq, battery_soc := atoi soc,
                  battery_temp := atoi temp, battery_cycle := atoi cycle,
                  voltage_now := atoi voltage, dvfs_value := dvfs, odpm_value := odpm,
                  evt_cnt_oilo1 := atoi oilo1, evt_cnt_oilo2 := atoi oilo2,
                  evt_cnt_uvlo1 := atoi uvlo1, evt_cnt_uvlo2 := atoi uvlo2,
                  max_curr := atoi (row ! MAX_CURR E)\<rparr>)))))
        else
          Inr (mv\<lparr>triggered_timestamp := parseTimestamp E (c_str timestamp),
                  triggered_irq := parseIRQ E irq, battery_soc := atoi soc,
                  battery_temp := atoi temp, battery_cycle := atoi cycle,
                  voltage_now := atoi voltage, dvfs_value := dvfs, odpm_value := odpm\<rparr>))
       (\<lambda>mv'.
          if IDX_VIMON_I E < length row then
            bind_abort (at row (IDX_VIMON_V E)) (\<lambda>vbatt.
            Inr (mv'\<lparr>vimon_vbatt := atoi vbatt, vimon_ibatt := atoi (row ! IDX_VIMON_I E)\<rparr>))
          else Inr mv')))))))))"

text \<open>
  \<^verbatim>\<open>while (std::getline(content, line))\<close> of \<^verbatim>\<open>logBrownoutCsv\<close>; the state is \<^verbatim>\<open>row_num\<close> and
  \<^verbatim>\<open>max_value\<close>. The first line that is read is the header of the table and is skipped.
\<close>

fun csv_loop :: "env \<Rightarrow> string list \<Rightarrow> nat \<times> BrownoutDetectedInfo \<Rightarrow> abort + loop_end" where
  "csv_loop E [] st = Inr (Ended False (snd st))"
| "csv_loop E (line # rest) st =
     (if regex_match line kAlreadyUpdatedPattern \<noteq> None then Inr (Ended True (snd st))
      else if Suc (fst st) = 1 then csv_loop E rest (Suc (fst st), snd st)
      else
        (case csv_row E (split_on (CHR '','') [] line) (snd st) of
           Inl x \<Rightarrow> Inl x
         | Inr mv' \<Rightarrow> csv_loop E rest (Suc (fst st), mv')))"

definition logBrownoutCsv :: "env \<Rightarrow> string \<Rightarrow> string \<Rightarrow> abort + action list" where
  "logBrownoutCsv E CsvFilePath brownoutReasonProp =
     (case ReadFileToString E CsvFilePath of
        None \<Rightarrow> Inr []
      | Some csvFile \<Rightarrow>
          let max_value = initial_max_value E (brownoutReasonCheck E brownoutReasonProp) in
          if brownout_reason max_value < 0 then Inr []
          else
            (case csv_loop E (getlines csvFile) (0, max_value) of
               Inl x \<Rightarrow> Inl x
             | Inr Returned \<Rightarrow> Inr []
             | Inr (Ended isAlreadyUpdated max_value') \<Rightarrow>
                 if \<not> isAlreadyUpdated \<and> battery_temp max_value' \<noteq> DEFAULT_BATTERY_TEMP then
                   Inr [WriteStringToFile (LASTMEAL_UPDATED_line @ csvFile) CsvFilePath,
                        uploadData max_value']
                 else Inr []))"

subsection \<open>A concrete environment for closed instances\<close>

text \<open>
  One file \<^verbatim>\<open>/log\<close> with the given content, the property \<^verbatim>\<open>reason\<close> set to
  \<^verbatim>\<open>uvlo,pmic,if\<close>, and a small table layout: six scalar columns, one DVFS and one ODPM
  column.
\<close>

definition ex_env :: "string \<Rightarrow> env" where
  "ex_env content =
     \<lparr>ReadFileToString = (\<lambda>p. if p = ''/log'' then Some content else None),
      GetProperty = (\<lambda>p. if p = ''reason'' then ''uvlo,pmic,if'' else []),
      parseTimestamp = (\<lambda>s. 0),
      reason_number = (\<lambda>k. 1),
      irq_number = (\<lambda>i. 2),
      irq_index = (\<lambda>i. 0),
      DVFS_MAX_IDX = 1, ODPM_MAX_IDX = 1,
      TIMESTAMP_IDX = 0, IRQ_IDX = 1, SOC_IDX = 2, TEMP_IDX = 3, CYCLE_IDX = 4, VOLTAGE_IDX = 5,
      DVFS_CHANNEL_0 = 6, ODPM_CHANNEL_0 = 7,
      EVT_CNT_IDX_OILO1 = 8, EVT_CNT_IDX_OILO2 = 9, EVT_CNT_IDX_UVLO1 = 10, EVT_CNT_IDX_UVLO2 = 11,
      MAX_CURR = 12, IDX_VIMON_V = 13, IDX_VIMON_I = 14\<rparr>"

definition ex_log :: string where
  "ex_log = ''battery:250'' @ [CHR 0x0A] @ ''soc:87'' @ [CHR 0x0A]"

definition ex_log_overflow :: string where
  "ex_log_overflow = ''battery:250'' @ [CHR 0x0A] @ ''soc:99999999999'' @ [CHR 0x0A]"

definition ex_csv :: string where
  "ex_csv = ''a,b,c,d,e,f,g,h'' @ [CHR 0x0A] @ ''t,0,87,250,3,4000,7,8'' @ [CHR 0x0A]"

definition ex_csv_short :: string where
  "ex_csv_short = ''a,b,c,d,e,f,g,h'' @ [CHR 0x0A] @ ''t,0,87,250,3,4000,7,8'' @ [CHR 0x0A]
     @ ''t,0,87'' @ [CHR 0x0A]"

section \<open>Properties of EventNode\<close>

subsection \<open>The scan\<close>

lemma length_groups_after: "length (groups_after GE gs e) = length gs"
  by (induction gs arbitrary: e) simp_all

lemma find_request_found_gen:
  "all_inactive GE pre e \<Longrightarrow> fst (GE g (expire_after GE pre e)) \<Longrightarrow>
   find_request GE (before @ pre @ g # post) (length before) v e =
     (length before + length pre, fst (snd (GE g (expire_after GE pre e))),
      before @ groups_after GE pre e @ snd (snd (GE g (expire_after GE pre e))) # post)"
proof (induction pre arbitrary: before e)
  case Nil
  then show ?case
    by (subst find_request.simps) (simp add: case_prod_beta)
next
  case (Cons p pre)
  let ?e1 = "fst (snd (GE p e))" and ?p1 = "snd (snd (GE p e))"
  from Cons.prems have na: "\<not> fst (GE p e)" and ai: "all_inactive GE pre ?e1"
    and act: "fst (GE g (expire_after GE pre ?e1))"
    by simp_all
  have "find_request GE ((before @ [?p1]) @ pre @ g # post) (length (before @ [?p1])) v ?e1 =
     (length (before @ [?p1]) + length pre, fst (snd (GE g (expire_after GE pre ?e1))),
      (before @ [?p1]) @ groups_after GE pre ?e1 @ snd (snd (GE g (expire_after GE pre ?e1))) # post)"
    by (rule Cons.IH [OF ai act])
  then show ?case using na
    by (subst find_request.simps) (simp add: nth_append list_update_append case_prod_beta)
qed

lemma find_request_none_gen:
  "all_inactive GE gs e \<Longrightarrow>
   find_request GE (before @ gs) (length before) v e =
     (v, expire_after GE gs e, before @ groups_after GE gs e)"
proof (induction gs arbitrary: before e)
  case Nil
  then show ?case
    by (subst find_request.simps) simp
next
  case (Cons p gs)
  let ?e1 = "fst (snd (GE p e))" and ?p1 = "snd (snd (GE p e))"
  from Cons.prems have na: "\<not> fst (GE p e)" and ai: "all_inactive GE gs ?e1"
    by simp_all
  have "find_request GE ((before @ [?p1]) @ gs) (length (before @ [?p1])) v ?e1 =
     (v, expire_after GE gs ?e1, (before @ [?p1]) @ groups_after GE gs ?e1)"
    by (rule Cons.IH [OF ai])
  then show ?case using na
    by (subst find_request.simps) (simp add: nth_append list_update_append case_prod_beta)
qed

lemma find_request_found:
  "all_inactive GE pre e \<Longrightarrow> fst (GE g (expire_after GE pre e)) \<Longrightarrow>
   find_request GE (pre @ g # post) 0 v e =
     (length pre, fst (snd (GE g (expire_after GE pre e))),
      groups_after GE pre e @ snd (snd (GE g (expire_after GE pre e))) # post)"
  using find_request_found_gen [of GE pre e g "[]" post v] by simp

lemma find_request_none:
  "all_inactive GE gs e \<Longrightarrow>
   find_request GE gs 0 v e = (v, expire_after GE gs e, groups_after GE gs e)"
  using find_request_none_gen [of GE gs e "[]" v] by simp

lemma scan_cases:
  "all_inactive GE gs e \<or>
   (\<exists>pre g post. gs = pre @ g # post \<and> all_inactive GE pre e \<and> fst (GE g (expire_after GE pre e)))"
proof (induction gs arbitrary: e)
  case Nil
  then show ?case by simp
next
  case (Cons p gs)
  show ?case
  proof (cases "fst (GE p e)")
    case True
    then have "p # gs = [] @ p # gs \<and> all_inactive GE [] e \<and> fst (GE p (expire_after GE [] e))"
      by simp
    then show ?thesis by blast
  next
    case False
    from Cons.IH [of "fst (snd (GE p e))"] show ?thesis
    proof
      assume "all_inactive GE gs (fst (snd (GE p e)))"
      then show ?thesis using False by simp
    next
      assume "\<exists>pre g post. gs = pre @ g # post \<and> all_inactive GE pre (fst (snd (GE p e)))
                \<and> fst (GE g (expire_after GE pre (fst (snd (GE p e)))))"
      then obtain pre g post where h: "gs = pre @ g # post"
        "all_inactive GE pre (fst (snd (GE p e)))"
        "fst (GE g (expire_after GE pre (fst (snd (GE p e)))))" by blast
      have "p # gs = (p # pre) @ g # post \<and> all_inactive GE (p # pre) e \<and>
            fst (GE g (expire_after GE (p # pre) e))"
        using h False by simp
      then show ?thesis by blast
    qed
  qed
qed

lemma find_request_length: "length (snd (snd (find_request GE gs 0 v e))) = length gs"
  using scan_cases [of GE gs e]
  by (auto simp: find_request_found find_request_none length_groups_after)

lemma find_request_index:
  "fst (find_request GE gs 0 v e) < length gs \<or> fst (find_request GE gs 0 v e) = v"
  using scan_cases [of GE gs e]
  by (auto simp: find_request_found find_request_none)

lemma Update_Inr:
  assumes "Update GE RV atrace n = Inr (e, evs, n')"
  shows "e = fst (snd (find_request GE (req_sorted n) 0 (default_val_index n) milliseconds_max))"
    and "n' = n\<lparr>req_sorted := snd (snd (find_request GE (req_sorted n) 0 (default_val_index n) milliseconds_max)),
               current_val_index := value_index_of GE n, reset_on_init := False\<rparr>"
    and "callbacks evs =
           (if value_index_of GE n \<noteq> current_val_index n \<or> reset_on_init n
            then [Callback (name n) (node_path n) (RV (req_sorted n' ! value_index_of GE n))]
            else [])"
    and "\<not> (value_index_of GE n \<noteq> current_val_index n \<or> reset_on_init n) \<Longrightarrow> evs = []"
    and "value_index_of GE n \<noteq> current_val_index n \<or> reset_on_init n
           \<Longrightarrow> value_index_of GE n < length (req_sorted n)"
  using assms find_request_length [of GE "req_sorted n" "default_val_index n" milliseconds_max]
  by (auto simp: Update_def value_index_of_def callbacks_def Let_def split: prod.splits if_splits)

lemma Update_defined:
  assumes "value_index_of GE n < length (req_sorted n)"
  shows "\<exists>e evs n'. Update GE RV atrace n = Inr (e, evs, n')"
  using assms find_request_length [of GE "req_sorted n" "default_val_index n" milliseconds_max]
  by (auto simp: Update_def value_index_of_def Let_def split: prod.splits)

subsection \<open>The selected index\<close>

lemma default_in_range:
  "default_val_index n < length (req_sorted n) \<Longrightarrow> value_index_of GE n < length (req_sorted n)"
  using find_request_index [of GE "req_sorted n" "default_val_index n" milliseconds_max]
  by (auto simp: value_index_of_def)

lemma value_index_found:
  "req_sorted n = pre @ g # post \<Longrightarrow> all_inactive GE pre milliseconds_max \<Longrightarrow>
   fst (GE g (expire_after GE pre milliseconds_max)) \<Longrightarrow> value_index_of GE n = length pre"
  by (simp add: value_index_of_def find_request_found)

lemma value_index_none:
  "all_inactive GE (req_sorted n) milliseconds_max \<Longrightarrow> value_index_of GE n = default_val_index n"
  by (simp add: value_index_of_def find_request_none)

text \<open>
  C1 (highest priority wins). Whenever the groups of the node split into groups \<open>pre\<close> that
  all report inactive, a group \<open>g\<close> that reports active and any groups \<open>post\<close> behind it,
  \<^verbatim>\<open>Update\<close> selects the index of \<open>g\<close>, returns, and leaves the groups \<open>post\<close> as they
  were: they are not consulted, and neither the index nor the groups in front depend on
  them. When every group reports inactive the selected index is \<^verbatim>\<open>default_val_index_\<close>.
  One of the two cases always applies.
\<close>

theorem Update_highest_priority_wins:
  "(req_sorted n = pre @ g # post \<and> all_inactive GE pre milliseconds_max
      \<and> fst (GE g (expire_after GE pre milliseconds_max))
    \<longrightarrow> value_index_of GE n = length pre
      \<and> (\<exists>e evs n'. Update GE RV atrace n = Inr (e, evs, n')
            \<and> current_val_index n' = length pre
            \<and> req_sorted n' = groups_after GE pre milliseconds_max
                 @ snd (snd (GE g (expire_after GE pre milliseconds_max))) # post))
   \<and> (all_inactive GE (req_sorted n) milliseconds_max
    \<longrightarrow> value_index_of GE n = default_val_index n
      \<and> (\<forall>e evs n'. Update GE RV atrace n = Inr (e, evs, n')
            \<longrightarrow> current_val_index n' = default_val_index n))
   \<and> (all_inactive GE (req_sorted n) milliseconds_max
      \<or> (\<exists>pre g post. req_sorted n = pre @ g # post \<and> all_inactive GE pre milliseconds_max
            \<and> fst (GE g (expire_after GE pre milliseconds_max))))"
proof (intro conjI impI)
  assume h: "req_sorted n = pre @ g # post \<and> all_inactive GE pre milliseconds_max
      \<and> fst (GE g (expire_after GE pre milliseconds_max))"
  then show vi: "value_index_of GE n = length pre"
    by (simp add: value_index_found)
  from h have "value_index_of GE n < length (req_sorted n)"
    using vi by simp
  then obtain e evs n' where u: "Update GE RV atrace n = Inr (e, evs, n')"
    using Update_defined by blast
  have "current_val_index n' = length pre"
    using Update_Inr(2) [OF u] vi by simp
  moreover have "req_sorted n' = groups_after GE pre milliseconds_max
                 @ snd (snd (GE g (expire_after GE pre milliseconds_max))) # post"
    using Update_Inr(2) [OF u] h by (simp add: find_request_found)
  ultimately show "\<exists>e evs n'. Update GE RV atrace n = Inr (e, evs, n')
            \<and> current_val_index n' = length pre
            \<and> req_sorted n' = groups_after GE pre milliseconds_max
                 @ snd (snd (GE g (expire_after GE pre milliseconds_max))) # post"
    using u by blast
next
  assume h: "all_inactive GE (req_sorted n) milliseconds_max"
  then show vi: "value_index_of GE n = default_val_index n"
    by (simp add: value_index_none)
  show "\<forall>e evs n'. Update GE RV atrace n = Inr (e, evs, n')
            \<longrightarrow> current_val_index n' = default_val_index n"
  proof (intro allI impI)
    fix e evs n'
    assume u: "Update GE RV atrace n = Inr (e, evs, n')"
    show "current_val_index n' = default_val_index n"
      using Update_Inr(2) [OF u] vi by simp
  qed
next
  show "all_inactive GE (req_sorted n) milliseconds_max
      \<or> (\<exists>pre g post. req_sorted n = pre @ g # post \<and> all_inactive GE pre milliseconds_max
            \<and> fst (GE g (expire_after GE pre milliseconds_max)))"
    by (rule scan_cases)
qed

theorem Update_highest_priority_wins_witness:
  "req_sorted ex_busy = [(False, 0, ''high'')] @ (True, 500, ''mid'') # [(True, 100, ''low''), (False, 0, ''def'')]
   \<and> all_inactive ex_GetExpireTime [(False, 0, ''high'')] milliseconds_max
   \<and> fst (ex_GetExpireTime (True, 500, ''mid'') (expire_after ex_GetExpireTime [(False, 0, ''high'')] milliseconds_max))
   \<and> value_index_of ex_GetExpireTime ex_busy = 1
   \<and> (\<exists>e evs n'. Update ex_GetExpireTime ex_GetRequestValue (False, False) ex_busy = Inr (e, evs, n')
         \<and> current_val_index n' = 1
         \<and> req_sorted n' = [(False, 0, ''high''), (True, 500, ''mid''), (True, 100, ''low''), (False, 0, ''def'')])
   \<and> all_inactive ex_GetExpireTime (req_sorted ex_idle) milliseconds_max
   \<and> value_index_of ex_GetExpireTime ex_idle = 1"
  using Update_highest_priority_wins [of ex_busy "[(False, 0, ''high'')]" "(True, 500, ''mid'')"
      "[(True, 100, ''low''), (False, 0, ''def'')]" ex_GetExpireTime ex_GetRequestValue "(False, False)"]
    Update_highest_priority_wins [of ex_idle "[]" "(False, 0, ''high'')" "[]" ex_GetExpireTime
      ex_GetRequestValue "(False, False)"]
  by (simp add: ex_busy_def ex_idle_def ex_GetExpireTime_def)

text \<open>
  C2 (the returned duration). \<^verbatim>\<open>Update\<close> returns the value of \<^verbatim>\<open>expire_time\<close> after the
  scan, whether or not the callback ran. When a group \<open>g\<close> wins, the call returns, for any
  \<^verbatim>\<open>current_val_index_\<close> and \<^verbatim>\<open>reset_on_init_\<close>, with the value that the winner's
  \<^verbatim>\<open>GetExpireTime\<close> wrote (so the maximum when the winner wrote the maximum). When no group
  is active the returned value is what the scan left in \<^verbatim>\<open>expire_time\<close>; when the scan left
  the initial value there, it is \<^verbatim>\<open>std::chrono::milliseconds::max()\<close>.
\<close>

theorem Update_returns_expire_time:
  "(Update GE RV atrace n = Inr (e, evs, n')
      \<longrightarrow> e = fst (snd (find_request GE (req_sorted n) 0 (default_val_index n) milliseconds_max)))
   \<and> (req_sorted n = pre @ g # post \<and> all_inactive GE pre milliseconds_max
        \<and> fst (GE g (expire_after GE pre milliseconds_max))
      \<longrightarrow> (\<exists>evs n'. Update GE RV atrace n =
             Inr (fst (snd (GE g (expire_after GE pre milliseconds_max))), evs, n')))
   \<and> (all_inactive GE (req_sorted n) milliseconds_max \<and> Update GE RV atrace n = Inr (e, evs, n')
      \<longrightarrow> e = expire_after GE (req_sorted n) milliseconds_max)
   \<and> (all_inactive GE (req_sorted n) milliseconds_max
        \<and> expire_after GE (req_sorted n) milliseconds_max = milliseconds_max
        \<and> default_val_index n < length (req_sorted n)
      \<longrightarrow> (\<exists>evs n'. Update GE RV atrace n = Inr (milliseconds_max, evs, n')))"
proof (intro conjI impI)
  assume u: "Update GE RV atrace n = Inr (e, evs, n')"
  show "e = fst (snd (find_request GE (req_sorted n) 0 (default_val_index n) milliseconds_max))"
    by (rule Update_Inr(1) [OF u])
next
  assume h: "req_sorted n = pre @ g # post \<and> all_inactive GE pre milliseconds_max
        \<and> fst (GE g (expire_after GE pre milliseconds_max))"
  then have "value_index_of GE n < length (req_sorted n)"
    by (simp add: value_index_found)
  then obtain e evs n' where u: "Update GE RV atrace n = Inr (e, evs, n')"
    using Update_defined by blast
  have "e = fst (snd (GE g (expire_after GE pre milliseconds_max)))"
    using Update_Inr(1) [OF u] h by (simp add: find_request_found)
  then show "\<exists>evs n'. Update GE RV atrace n =
             Inr (fst (snd (GE g (expire_after GE pre milliseconds_max))), evs, n')"
    using u by blast
next
  assume h: "all_inactive GE (req_sorted n) milliseconds_max \<and> Update GE RV atrace n = Inr (e, evs, n')"
  then show "e = expire_after GE (req_sorted n) milliseconds_max"
    using Update_Inr(1) [of GE RV atrace n e evs n'] by (simp add: find_request_none)
next
  assume h: "all_inactive GE (req_sorted n) milliseconds_max
        \<and> expire_after GE (req_sorted n) milliseconds_max = milliseconds_max
        \<and> default_val_index n < length (req_sorted n)"
  then have "value_index_of GE n < length (req_sorted n)"
    by (simp add: default_in_range)
  then obtain e evs n' where u: "Update GE RV atrace n = Inr (e, evs, n')"
    using Update_defined by blast
  have "e = milliseconds_max"
    using Update_Inr(1) [OF u] h by (simp add: find_request_none)
  then show "\<exists>evs n'. Update GE RV atrace n = Inr (milliseconds_max, evs, n')"
    using u by blast
qed

theorem Update_returns_expire_time_witness:
  "Update ex_GetExpireTime ex_GetRequestValue (False, False) ex_busy =
     Inr (500, [Callback ''cpu'' ''/dev/cpu'' ''mid''], ex_busy\<lparr>current_val_index := 1\<rparr>)
   \<and> 500 = fst (snd (find_request ex_GetExpireTime (req_sorted ex_busy) 0 (default_val_index ex_busy)
                      milliseconds_max))
   \<and> req_sorted ex_busy = [(False, 0, ''high'')] @ (True, 500, ''mid'') # [(True, 100, ''low''), (False, 0, ''def'')]
   \<and> all_inactive ex_GetExpireTime [(False, 0, ''high'')] milliseconds_max
   \<and> fst (ex_GetExpireTime (True, 500, ''mid'') (expire_after ex_GetExpireTime [(False, 0, ''high'')] milliseconds_max))
   \<and> (\<exists>evs n'. Update ex_GetExpireTime ex_GetRequestValue (False, False) ex_busy = Inr (500, evs, n'))
   \<and> (\<exists>evs n'. Update ex_GetExpireTime ex_GetRequestValue (False, False) (ex_busy\<lparr>current_val_index := 1\<rparr>)
          = Inr (500, evs, n'))
   \<and> all_inactive ex_GetExpireTime (req_sorted ex_idle) milliseconds_max
   \<and> Update ex_GetExpireTime ex_GetRequestValue (False, False) ex_idle =
       Inr (milliseconds_max, [Callback ''cpu'' ''/dev/cpu'' ''def''], ex_idle\<lparr>reset_on_init := False\<rparr>)
   \<and> milliseconds_max = expire_after ex_GetExpireTime (req_sorted ex_idle) milliseconds_max
   \<and> default_val_index ex_idle < length (req_sorted ex_idle)
   \<and> (\<exists>evs n'. Update ex_GetExpireTime ex_GetRequestValue (False, False) ex_idle = Inr (milliseconds_max, evs, n'))"
proof -
  have rb: "req_sorted ex_busy =
      [(False, 0, ''high''), (True, 500, ''mid''), (True, 100, ''low''), (False, 0, ''def'')]"
    and ri: "req_sorted ex_idle = [(False, 0, ''high''), (False, 0, ''def'')]"
    and di: "default_val_index ex_idle = 1"
    by (simp_all add: ex_busy_def ex_idle_def)
  have u1: "Update ex_GetExpireTime ex_GetRequestValue (False, False) ex_busy =
     Inr (500, [Callback ''cpu'' ''/dev/cpu'' ''mid''], ex_busy\<lparr>current_val_index := 1\<rparr>)"
    by (simp add: Update_def ex_busy_def ex_GetExpireTime_def ex_GetRequestValue_def
        find_request.simps Let_def)
  have u3: "Update ex_GetExpireTime ex_GetRequestValue (False, False) ex_idle =
       Inr (milliseconds_max, [Callback ''cpu'' ''/dev/cpu'' ''def''], ex_idle\<lparr>reset_on_init := False\<rparr>)"
    by (simp add: Update_def ex_idle_def ex_GetExpireTime_def ex_GetRequestValue_def
        find_request.simps Let_def)
  note g1 = Update_returns_expire_time [where GE = ex_GetExpireTime and RV = ex_GetRequestValue
      and atrace = "(False, False)" and n = ex_busy and e = 500
      and evs = "[Callback ''cpu'' ''/dev/cpu'' ''mid'']" and n' = "ex_busy\<lparr>current_val_index := 1\<rparr>"
      and pre = "[(False, 0, ''high'')]" and g = "(True, 500, ''mid'')"
      and post = "[(True, 100, ''low''), (False, 0, ''def'')]"]
  note g2 = Update_returns_expire_time [where GE = ex_GetExpireTime and RV = ex_GetRequestValue
      and atrace = "(False, False)" and n = "ex_busy\<lparr>current_val_index := 1\<rparr>" and e = 500
      and evs = "[]" and n' = "ex_busy\<lparr>current_val_index := 1\<rparr>"
      and pre = "[(False, 0, ''high'')]" and g = "(True, 500, ''mid'')"
      and post = "[(True, 100, ''low''), (False, 0, ''def'')]"]
  note g3 = Update_returns_expire_time [where GE = ex_GetExpireTime and RV = ex_GetRequestValue
      and atrace = "(False, False)" and n = ex_idle and e = milliseconds_max
      and evs = "[Callback ''cpu'' ''/dev/cpu'' ''def'']" and n' = "ex_idle\<lparr>reset_on_init := False\<rparr>"
      and pre = "[]" and g = "(False, 0, ''high'')" and post = "[]"]
  show ?thesis
    using g1 g2 g3 u1 u3
    by (simp add: rb ri di ex_GetExpireTime_def)
qed

text \<open>
  C3 (the callback). A call of \<^verbatim>\<open>Update\<close> that returns has invoked \<^verbatim>\<open>update_callback_\<close> once,
  with the node's name, its path and the value of the selected group, when the selected
  index differs from \<^verbatim>\<open>current_val_index_\<close> or \<^verbatim>\<open>reset_on_init_\<close> is set, and otherwise has
  produced no event at all and left both fields as they were. The call returns whenever
  the selected index is inside \<^verbatim>\<open>req_sorted_\<close>.
\<close>

theorem Update_callback_at_most_once:
  "(Update GE RV atrace n = Inr (e, evs, n') \<longrightarrow>
      callbacks evs =
        (if value_index_of GE n \<noteq> current_val_index n \<or> reset_on_init n
         then [Callback (name n) (node_path n) (RV (req_sorted n' ! value_index_of GE n))]
         else [])
      \<and> length (callbacks evs) \<le> 1
      \<and> (\<not> (value_index_of GE n \<noteq> current_val_index n \<or> reset_on_init n)
           \<longrightarrow> evs = [] \<and> current_val_index n' = current_val_index n
               \<and> reset_on_init n' = reset_on_init n))
   \<and> (value_index_of GE n < length (req_sorted n)
        \<longrightarrow> (\<exists>e evs n'. Update GE RV atrace n = Inr (e, evs, n')))"
proof (intro conjI impI)
  assume u: "Update GE RV atrace n = Inr (e, evs, n')"
  show c: "callbacks evs =
        (if value_index_of GE n \<noteq> current_val_index n \<or> reset_on_init n
         then [Callback (name n) (node_path n) (RV (req_sorted n' ! value_index_of GE n))]
         else [])"
    by (rule Update_Inr(3) [OF u])
  show "length (callbacks evs) \<le> 1"
    by (simp add: c)
  assume no: "\<not> (value_index_of GE n \<noteq> current_val_index n \<or> reset_on_init n)"
  show "evs = []"
    by (rule Update_Inr(4) [OF u no])
  show "current_val_index n' = current_val_index n"
    using Update_Inr(2) [OF u] no by simp
  show "reset_on_init n' = reset_on_init n"
    using Update_Inr(2) [OF u] no by simp
next
  assume "value_index_of GE n < length (req_sorted n)"
  then show "\<exists>e evs n'. Update GE RV atrace n = Inr (e, evs, n')"
    by (rule Update_defined)
qed

theorem Update_callback_at_most_once_witness:
  "Update ex_GetExpireTime ex_GetRequestValue (True, True) ex_busy =
     Inr (500,
          [AtraceInt ''N:cpu'' 1, AtraceBegin ''cpu:mid:500'', Callback ''cpu'' ''/dev/cpu'' ''mid'', AtraceEnd],
          ex_busy\<lparr>current_val_index := 1\<rparr>)
   \<and> callbacks [AtraceInt ''N:cpu'' 1, AtraceBegin ''cpu:mid:500'', Callback ''cpu'' ''/dev/cpu'' ''mid'', AtraceEnd]
       = [Callback ''cpu'' ''/dev/cpu'' ''mid'']
   \<and> Update ex_GetExpireTime ex_GetRequestValue (True, True) (ex_busy\<lparr>current_val_index := 1\<rparr>) =
     Inr (500, [], ex_busy\<lparr>current_val_index := 1\<rparr>)
   \<and> value_index_of ex_GetExpireTime ex_busy < length (req_sorted ex_busy)"
proof -
  have v: "value_index_of ex_GetExpireTime ex_busy = 1"
    "value_index_of ex_GetExpireTime (ex_busy\<lparr>current_val_index := 1\<rparr>) = 1"
    by (simp_all add: value_index_of_def ex_busy_def ex_GetExpireTime_def find_request.simps)
  have s: "string_of_nat 500 = ''500''"
    by (simp add: string_of_nat.simps [of 500] string_of_nat.simps [of 50] string_of_nat.simps [of 5]
        digit_char_def)
  have u1: "Update ex_GetExpireTime ex_GetRequestValue (True, True) ex_busy =
     Inr (500,
          [AtraceInt ''N:cpu'' 1, AtraceBegin ''cpu:mid:500'', Callback ''cpu'' ''/dev/cpu'' ''mid'', AtraceEnd],
          ex_busy\<lparr>current_val_index := 1\<rparr>)"
    by (simp add: Update_def ex_busy_def ex_GetExpireTime_def ex_GetRequestValue_def
        find_request.simps to_string_def s Let_def c_str_def)
  have u2: "Update ex_GetExpireTime ex_GetRequestValue (True, True) (ex_busy\<lparr>current_val_index := 1\<rparr>) =
     Inr (500, [], ex_busy\<lparr>current_val_index := 1\<rparr>)"
    by (simp add: Update_def ex_busy_def ex_GetExpireTime_def ex_GetRequestValue_def
        find_request.simps)
  show ?thesis
    using Update_callback_at_most_once [of ex_GetExpireTime ex_GetRequestValue "(True, True)" ex_busy
        500 "[AtraceInt ''N:cpu'' 1, AtraceBegin ''cpu:mid:500'', Callback ''cpu'' ''/dev/cpu'' ''mid'', AtraceEnd]"
        "ex_busy\<lparr>current_val_index := 1\<rparr>"]
      Update_callback_at_most_once [of ex_GetExpireTime ex_GetRequestValue "(True, True)"
        "ex_busy\<lparr>current_val_index := 1\<rparr>" 500 "[]" "ex_busy\<lparr>current_val_index := 1\<rparr>"]
      u1 u2 v
    by (simp add: callbacks_def ex_busy_def)
qed

text \<open>
  After any call that returns, \<^verbatim>\<open>current_val_index_\<close> is the selected index and
  \<^verbatim>\<open>reset_on_init_\<close> is false.
\<close>

lemma Update_post:
  assumes "Update GE RV atrace n = Inr (e, evs, n')"
  shows "current_val_index n' = value_index_of GE n" and "\<not> reset_on_init n'"
    and "length (req_sorted n') = length (req_sorted n)"
    and "default_val_index n' = default_val_index n"
    and "name n' = name n" and "node_path n' = node_path n"
  using Update_Inr(2) [OF assms]
    find_request_length [of GE "req_sorted n" "default_val_index n" milliseconds_max]
  by simp_all

text \<open>
  A group is stable under \<^verbatim>\<open>GetExpireTime\<close> when, asked again after a call, it gives the
  same answer: no lease runs out in between. Then a second scan selects the same index.
\<close>

lemma all_inactive_groups_after:
  assumes st: "\<And>g e e'. fst (GE (snd (snd (GE g e))) e') = fst (GE g e)"
  shows "all_inactive GE gs e \<Longrightarrow> all_inactive GE (groups_after GE gs e) e'"
  by (induction gs arbitrary: e e') (simp_all add: st)

lemma value_index_stable:
  assumes st: "\<And>g e e'. fst (GE (snd (snd (GE g e))) e') = fst (GE g e)"
    and u: "Update GE RV atrace n = Inr (e, evs, n')"
  shows "value_index_of GE n' = value_index_of GE n"
proof -
  let ?m = milliseconds_max
  have d: "default_val_index n' = default_val_index n"
    by (rule Update_post(4) [OF u])
  have r: "req_sorted n' = snd (snd (find_request GE (req_sorted n) 0 (default_val_index n) ?m))"
    using Update_Inr(2) [OF u] by simp
  from scan_cases [of GE "req_sorted n" ?m] show ?thesis
  proof
    assume ai: "all_inactive GE (req_sorted n) ?m"
    then have "req_sorted n' = groups_after GE (req_sorted n) ?m"
      using r by (simp add: find_request_none)
    then have "all_inactive GE (req_sorted n') ?m"
      using all_inactive_groups_after [OF st ai] by simp
    then show ?thesis
      using ai d by (simp add: value_index_none)
  next
    assume "\<exists>pre g post. req_sorted n = pre @ g # post \<and> all_inactive GE pre ?m
              \<and> fst (GE g (expire_after GE pre ?m))"
    then obtain pre g post where h: "req_sorted n = pre @ g # post" "all_inactive GE pre ?m"
      "fst (GE g (expire_after GE pre ?m))" by blast
    let ?g' = "snd (snd (GE g (expire_after GE pre ?m)))"
    have r': "req_sorted n' = groups_after GE pre ?m @ ?g' # post"
      using r h by (simp add: find_request_found)
    have a1: "all_inactive GE (groups_after GE pre ?m) ?m"
      by (rule all_inactive_groups_after [OF st h(2)])
    have a2: "fst (GE ?g' (expire_after GE (groups_after GE pre ?m) ?m))"
      using st h(3) by simp
    have "value_index_of GE n' = length (groups_after GE pre ?m)"
      by (rule value_index_found [OF r' a1 a2])
    then show ?thesis
      using value_index_found [OF h] by (simp add: length_groups_after)
  qed
qed

text \<open>
  C4 as stated fails. The first group holds a request whose lease is live at the first call
  and has run out at the second. Nothing is submitted or withdrawn in between, the second
  call runs on the node the first left, and both calls invoke the callback: the first
  with \<^verbatim>\<open>boost\<close>, the second with the default value.
\<close>

theorem Update_idempotent_lease_counterexample:
  "Update ex_lease_GetExpireTime snd (False, False) ex_lease =
     Inr (500, [Callback ''cpu'' ''/dev/cpu'' ''boost''],
          ex_lease\<lparr>req_sorted := [(0, ''boost''), (0, ''def'')], current_val_index := 0\<rparr>)
   \<and> Update ex_lease_GetExpireTime snd (False, False)
        (ex_lease\<lparr>req_sorted := [(0, ''boost''), (0, ''def'')], current_val_index := 0\<rparr>) =
     Inr (milliseconds_max, [Callback ''cpu'' ''/dev/cpu'' ''def''],
          ex_lease\<lparr>req_sorted := [(0, ''boost''), (0, ''def'')], current_val_index := 1\<rparr>)
   \<and> length (callbacks [Callback ''cpu'' ''/dev/cpu'' ''boost'']
              @ callbacks [Callback ''cpu'' ''/dev/cpu'' ''def'']) = 2"
  by (simp add: Update_def ex_lease_def ex_lease_GetExpireTime_def find_request.simps Let_def
      callbacks_def)

text \<open>
  C4, amended. Two calls of \<^verbatim>\<open>Update\<close> in a row, the second on the node as the first left
  it, with the scan of the second call selecting the same index as the first: the first
  call invokes the callback at most once, the second produces no event, and the two
  together invoke the callback at most once. The second scan does select the same index
  when every group, asked again after a call of \<^verbatim>\<open>GetExpireTime\<close>, gives the same answer,
  that is when its requests are those the first call left and no lease has run out.
\<close>

theorem Update_idempotent:
  "(Update GE RV atrace n = Inr (e1, evs1, n1) \<and> Update GE RV atrace2 n1 = Inr (e2, evs2, n2)
      \<and> value_index_of GE n1 = value_index_of GE n
    \<longrightarrow> evs2 = [] \<and> callbacks evs2 = [] \<and> length (callbacks evs1 @ callbacks evs2) \<le> 1
        \<and> current_val_index n2 = current_val_index n1 \<and> reset_on_init n2 = reset_on_init n1)
   \<and> (Update GE RV atrace n = Inr (e1, evs1, n1)
      \<and> (\<forall>g e e'. fst (GE (snd (snd (GE g e))) e') = fst (GE g e))
    \<longrightarrow> value_index_of GE n1 = value_index_of GE n)"
proof (intro conjI impI)
  assume h: "Update GE RV atrace n = Inr (e1, evs1, n1) \<and> Update GE RV atrace2 n1 = Inr (e2, evs2, n2)
     \<and> value_index_of GE n1 = value_index_of GE n"
  then have u1: "Update GE RV atrace n = Inr (e1, evs1, n1)"
    and u2: "Update GE RV atrace2 n1 = Inr (e2, evs2, n2)"
    and same: "value_index_of GE n1 = value_index_of GE n" by simp_all
  have quiet: "\<not> (value_index_of GE n1 \<noteq> current_val_index n1 \<or> reset_on_init n1)"
    using Update_post(1,2) [OF u1] same by simp
  show e2: "evs2 = []"
    by (rule Update_Inr(4) [OF u2 quiet])
  show "callbacks evs2 = []"
    by (simp add: e2 callbacks_def)
  have c1: "length (callbacks evs1) \<le> 1"
    using Update_Inr(3) [OF u1] by simp
  then show "length (callbacks evs1 @ callbacks evs2) \<le> 1"
    by (simp add: e2 callbacks_def)
  show "current_val_index n2 = current_val_index n1" "reset_on_init n2 = reset_on_init n1"
    using Update_Inr(2) [OF u2] quiet by simp_all
next
  assume h: "Update GE RV atrace n = Inr (e1, evs1, n1)
      \<and> (\<forall>g e e'. fst (GE (snd (snd (GE g e))) e') = fst (GE g e))"
  then have u1: "Update GE RV atrace n = Inr (e1, evs1, n1)"
    and st: "\<And>g e e'. fst (GE (snd (snd (GE g e))) e') = fst (GE g e)" by simp_all
  show "value_index_of GE n1 = value_index_of GE n"
    by (rule value_index_stable [OF st u1])
qed

theorem Update_idempotent_witness:
  "Update ex_GetExpireTime ex_GetRequestValue (False, False) ex_busy =
     Inr (500, [Callback ''cpu'' ''/dev/cpu'' ''mid''], ex_busy\<lparr>current_val_index := 1\<rparr>)
   \<and> Update ex_GetExpireTime ex_GetRequestValue (False, False) (ex_busy\<lparr>current_val_index := 1\<rparr>) =
     Inr (500, [], ex_busy\<lparr>current_val_index := 1\<rparr>)
   \<and> (\<forall>g e e'. fst (ex_GetExpireTime (snd (snd (ex_GetExpireTime g e))) e') = fst (ex_GetExpireTime g e))
   \<and> value_index_of ex_GetExpireTime (ex_busy\<lparr>current_val_index := 1\<rparr>) = value_index_of ex_GetExpireTime ex_busy
   \<and> length (callbacks [Callback ''cpu'' ''/dev/cpu'' ''mid''] @ callbacks []) \<le> 1"
proof -
  have st: "\<forall>g e e'. fst (ex_GetExpireTime (snd (snd (ex_GetExpireTime g e))) e') = fst (ex_GetExpireTime g e)"
    by (simp add: ex_GetExpireTime_def)
  have u1: "Update ex_GetExpireTime ex_GetRequestValue (False, False) ex_busy =
     Inr (500, [Callback ''cpu'' ''/dev/cpu'' ''mid''], ex_busy\<lparr>current_val_index := 1\<rparr>)"
    by (simp add: Update_def ex_busy_def ex_GetExpireTime_def ex_GetRequestValue_def
        find_request.simps Let_def)
  have u2: "Update ex_GetExpireTime ex_GetRequestValue (False, False) (ex_busy\<lparr>current_val_index := 1\<rparr>) =
     Inr (500, [], ex_busy\<lparr>current_val_index := 1\<rparr>)"
    by (simp add: Update_def ex_busy_def ex_GetExpireTime_def ex_GetRequestValue_def
        find_request.simps)
  note g = Update_idempotent [where GE = ex_GetExpireTime and RV = ex_GetRequestValue
      and atrace = "(False, False)" and n = ex_busy and ?e1.0 = 500
      and ?evs1.0 = "[Callback ''cpu'' ''/dev/cpu'' ''mid'']" and ?n1.0 = "ex_busy\<lparr>current_val_index := 1\<rparr>"
      and ?atrace2.0 = "(False, False)" and ?e2.0 = 500 and ?evs2.0 = "[]"
      and ?n2.0 = "ex_busy\<lparr>current_val_index := 1\<rparr>"]
  have v: "value_index_of ex_GetExpireTime (ex_busy\<lparr>current_val_index := 1\<rparr>)
             = value_index_of ex_GetExpireTime ex_busy"
    using g u1 st by blast
  have "length (callbacks [Callback ''cpu'' ''/dev/cpu'' ''mid''] @ callbacks []) \<le> 1"
    using g u1 u2 v by blast
  then show ?thesis
    using u1 u2 st v by blast
qed

text \<open>
  C5 (\<^verbatim>\<open>reset_on_init_\<close>). On a node with \<^verbatim>\<open>reset_on_init_\<close> set, a call that returns has
  invoked the callback exactly once, also when the selected index is
  \<^verbatim>\<open>current_val_index_\<close>, and has cleared the flag; a later call that selects the index now
  current produces no event. With \<^verbatim>\<open>default_val_index_\<close> inside \<^verbatim>\<open>req_sorted_\<close> the call
  returns.
\<close>

theorem reset_on_init_applies_once:
  "(reset_on_init n \<and> Update GE RV atrace n = Inr (e, evs, n') \<longrightarrow>
      callbacks evs = [Callback (name n) (node_path n) (RV (req_sorted n' ! value_index_of GE n))]
      \<and> \<not> reset_on_init n' \<and> current_val_index n' = value_index_of GE n
      \<and> (Update GE RV atrace2 n' = Inr (e2, evs2, n2)
           \<and> value_index_of GE n' = current_val_index n' \<longrightarrow> evs2 = [] \<and> \<not> reset_on_init n2))
   \<and> (reset_on_init n \<and> default_val_index n < length (req_sorted n) \<longrightarrow>
        (\<exists>e evs n'. Update GE RV atrace n = Inr (e, evs, n') \<and> length (callbacks evs) = 1))"
proof (intro conjI impI)
  assume h: "reset_on_init n \<and> Update GE RV atrace n = Inr (e, evs, n')"
  then have u: "Update GE RV atrace n = Inr (e, evs, n')" and r: "reset_on_init n" by simp_all
  show "callbacks evs = [Callback (name n) (node_path n) (RV (req_sorted n' ! value_index_of GE n))]"
    using Update_Inr(3) [OF u] r by simp
  show nr: "\<not> reset_on_init n'"
    by (rule Update_post(2) [OF u])
  show "current_val_index n' = value_index_of GE n"
    by (rule Update_post(1) [OF u])
  assume h2: "Update GE RV atrace2 n' = Inr (e2, evs2, n2)
           \<and> value_index_of GE n' = current_val_index n'"
  then have u2: "Update GE RV atrace2 n' = Inr (e2, evs2, n2)" by simp
  have quiet: "\<not> (value_index_of GE n' \<noteq> current_val_index n' \<or> reset_on_init n')"
    using h2 nr by simp
  show "evs2 = []"
    by (rule Update_Inr(4) [OF u2 quiet])
  show "\<not> reset_on_init n2"
    by (rule Update_post(2) [OF u2])
next
  assume h: "reset_on_init n \<and> default_val_index n < length (req_sorted n)"
  then have "value_index_of GE n < length (req_sorted n)"
    by (simp add: default_in_range)
  then obtain e evs n' where u: "Update GE RV atrace n = Inr (e, evs, n')"
    using Update_defined by blast
  have "length (callbacks evs) = 1"
    using Update_Inr(3) [OF u] h by simp
  then show "\<exists>e evs n'. Update GE RV atrace n = Inr (e, evs, n') \<and> length (callbacks evs) = 1"
    using u by blast
qed

theorem reset_on_init_applies_once_witness:
  "reset_on_init ex_idle \<and> default_val_index ex_idle < length (req_sorted ex_idle)
   \<and> value_index_of ex_GetExpireTime ex_idle = current_val_index ex_idle
   \<and> Update ex_GetExpireTime ex_GetRequestValue (False, False) ex_idle =
       Inr (milliseconds_max, [Callback ''cpu'' ''/dev/cpu'' ''def''], ex_idle\<lparr>reset_on_init := False\<rparr>)
   \<and> Update ex_GetExpireTime ex_GetRequestValue (False, False) (ex_idle\<lparr>reset_on_init := False\<rparr>) =
       Inr (milliseconds_max, [], ex_idle\<lparr>reset_on_init := False\<rparr>)
   \<and> callbacks [Callback ''cpu'' ''/dev/cpu'' ''def''] = [Callback ''cpu'' ''/dev/cpu'' ''def'']"
proof -
  have v: "value_index_of ex_GetExpireTime ex_idle = 1"
    "value_index_of ex_GetExpireTime (ex_idle\<lparr>reset_on_init := False\<rparr>) = 1"
    by (simp_all add: value_index_of_def ex_idle_def ex_GetExpireTime_def find_request.simps)
  have f: "reset_on_init ex_idle" "default_val_index ex_idle = 1" "current_val_index ex_idle = 1"
    "req_sorted ex_idle = [(False, 0, ''high''), (False, 0, ''def'')]"
    by (simp_all add: ex_idle_def)
  have u1: "Update ex_GetExpireTime ex_GetRequestValue (False, False) ex_idle =
       Inr (milliseconds_max, [Callback ''cpu'' ''/dev/cpu'' ''def''], ex_idle\<lparr>reset_on_init := False\<rparr>)"
    by (simp add: Update_def ex_idle_def ex_GetExpireTime_def ex_GetRequestValue_def
        find_request.simps Let_def)
  have u2: "Update ex_GetExpireTime ex_GetRequestValue (False, False) (ex_idle\<lparr>reset_on_init := False\<rparr>) =
       Inr (milliseconds_max, [], ex_idle\<lparr>reset_on_init := False\<rparr>)"
    by (simp add: Update_def ex_idle_def ex_GetExpireTime_def ex_GetRequestValue_def
        find_request.simps)
  show ?thesis
    using reset_on_init_applies_once [of ex_idle ex_GetExpireTime ex_GetRequestValue "(False, False)"
        milliseconds_max "[Callback ''cpu'' ''/dev/cpu'' ''def'']" "ex_idle\<lparr>reset_on_init := False\<rparr>"
        "(False, False)" milliseconds_max "[]" "ex_idle\<lparr>reset_on_init := False\<rparr>"] u1 u2 v f
    by (simp add: callbacks_def ex_GetRequestValue_def)
qed

text \<open>
  C7 (tracing is transparent). Whatever the two calls of \<^verbatim>\<open>ATRACE_ENABLED()\<close> answer,
  \<^verbatim>\<open>Update\<close> stops in the same cases and otherwise returns the same duration, leaves the
  same node (so the same \<^verbatim>\<open>current_val_index_\<close> and \<^verbatim>\<open>reset_on_init_\<close>) and makes the same
  callback invocations; the selected index does not depend on tracing at all. With
  tracing off the events are exactly the callback invocations of the traced run.
\<close>

theorem Update_tracing_transparent:
  "(case Update GE RV atrace n of
      Inl f \<Rightarrow> Update GE RV atrace' n = Inl f
    | Inr (e, evs, n') \<Rightarrow>
        (\<exists>evs'. Update GE RV atrace' n = Inr (e, evs', n') \<and> callbacks evs' = callbacks evs)
        \<and> Update GE RV (False, False) n = Inr (e, callbacks evs, n')
        \<and> current_val_index n' = value_index_of GE n)"
proof (cases "Update GE RV atrace n")
  case (Inl f)
  then show ?thesis
    by (auto simp: Update_def Let_def split: prod.splits if_splits)
next
  case (Inr r)
  obtain e evs n' where r: "r = (e, evs, n')" by (cases r) auto
  have u: "Update GE RV atrace n = Inr (e, evs, n')" using Inr r by simp
  have a: "\<exists>evs'. Update GE RV atrace' n = Inr (e, evs', n') \<and> callbacks evs' = callbacks evs"
    using u by (auto simp: Update_def Let_def callbacks_def split: prod.splits if_splits)
  have b: "Update GE RV (False, False) n = Inr (e, callbacks evs, n')"
    using u by (auto simp: Update_def Let_def callbacks_def split: prod.splits if_splits)
  have c: "current_val_index n' = value_index_of GE n"
    by (rule Update_post(1) [OF u])
  show ?thesis using u a b c by simp
qed

theorem Update_tracing_transparent_witness:
  "Update ex_GetExpireTime ex_GetRequestValue (True, True) ex_busy =
     Inr (500,
          [AtraceInt ''N:cpu'' 1, AtraceBegin ''cpu:mid:500'', Callback ''cpu'' ''/dev/cpu'' ''mid'', AtraceEnd],
          ex_busy\<lparr>current_val_index := 1\<rparr>)
   \<and> Update ex_GetExpireTime ex_GetRequestValue (False, False) ex_busy =
     Inr (500, [Callback ''cpu'' ''/dev/cpu'' ''mid''], ex_busy\<lparr>current_val_index := 1\<rparr>)"
proof -
  have s: "string_of_nat 500 = ''500''"
    by (simp add: string_of_nat.simps [of 500] string_of_nat.simps [of 50] string_of_nat.simps [of 5]
        digit_char_def)
  have u1: "Update ex_GetExpireTime ex_GetRequestValue (True, True) ex_busy =
     Inr (500,
          [AtraceInt ''N:cpu'' 1, AtraceBegin ''cpu:mid:500'', Callback ''cpu'' ''/dev/cpu'' ''mid'', AtraceEnd],
          ex_busy\<lparr>current_val_index := 1\<rparr>)"
    by (simp add: Update_def ex_busy_def ex_GetExpireTime_def ex_GetRequestValue_def
        find_request.simps to_string_def s Let_def c_str_def)
  show ?thesis
    using Update_tracing_transparent [where GE = ex_GetExpireTime and RV = ex_GetRequestValue
        and atrace = "(True, True)" and n = ex_busy and atrace' = "(False, False)"] u1
    by (simp add: callbacks_def)
qed

text \<open>
  C9 (indices stay in range). With \<^verbatim>\<open>default_val_index_\<close> inside \<^verbatim>\<open>req_sorted_\<close> (which is
  then not empty), \<^verbatim>\<open>Update\<close> never reads outside the vector: it returns, keeps the size
  and the default index, and leaves \<^verbatim>\<open>current_val_index_\<close> inside the vector, so that
  \<^verbatim>\<open>DumpToFd\<close> on the node it leaves does not read outside either.
\<close>

theorem Update_index_in_range:
  "default_val_index n < length (req_sorted n) \<longrightarrow>
     value_index_of GE n < length (req_sorted n)
     \<and> (\<exists>e evs n'. Update GE RV atrace n = Inr (e, evs, n')
           \<and> current_val_index n' < length (req_sorted n')
           \<and> length (req_sorted n') = length (req_sorted n)
           \<and> default_val_index n' = default_val_index n
           \<and> (\<exists>logged w'. DumpToFd RV W GD n' fd w = Inr (logged, w', n')))"
proof
  assume d: "default_val_index n < length (req_sorted n)"
  have v: "value_index_of GE n < length (req_sorted n)"
    by (rule default_in_range [OF d])
  then obtain e evs n' where u: "Update GE RV atrace n = Inr (e, evs, n')"
    using Update_defined by blast
  have c: "current_val_index n' < length (req_sorted n')"
    using Update_post(1,3) [OF u] v by simp
  have "\<exists>logged w'. DumpToFd RV W GD n' fd w = Inr (logged, w', n')"
    using c by (simp add: DumpToFd_def Let_def case_prod_beta)
  then show "value_index_of GE n < length (req_sorted n)
     \<and> (\<exists>e evs n'. Update GE RV atrace n = Inr (e, evs, n')
           \<and> current_val_index n' < length (req_sorted n')
           \<and> length (req_sorted n') = length (req_sorted n)
           \<and> default_val_index n' = default_val_index n
           \<and> (\<exists>logged w'. DumpToFd RV W GD n' fd w = Inr (logged, w', n')))"
    using v u c Update_post(3,4) [OF u] by blast
qed

theorem Update_index_in_range_witness:
  "default_val_index ex_busy < length (req_sorted ex_busy)
   \<and> value_index_of ex_GetExpireTime ex_busy < length (req_sorted ex_busy)
   \<and> (\<exists>e evs n'. Update ex_GetExpireTime ex_GetRequestValue (False, False) ex_busy = Inr (e, evs, n')
         \<and> current_val_index n' < length (req_sorted n')
         \<and> length (req_sorted n') = length (req_sorted ex_busy)
         \<and> default_val_index n' = default_val_index ex_busy
         \<and> (\<exists>logged w'. DumpToFd ex_GetRequestValue ex_write_fails ex_GroupDumpToFd n' 3 [] =
               Inr (logged, w', n')))"
proof -
  have d: "default_val_index ex_busy < length (req_sorted ex_busy)"
    by (simp add: ex_busy_def)
  show ?thesis
    using Update_index_in_range [where n = ex_busy and GE = ex_GetExpireTime
        and RV = ex_GetRequestValue and atrace = "(False, False)" and W = ex_write_fails
        and GD = ex_GroupDumpToFd and fd = 3 and w = "[]"] d
    by simp
qed

lemma string_of_nat_digit: "n < 10 \<Longrightarrow> string_of_nat n = [digit_char n]"
  by (subst string_of_nat.simps) simp

text \<open>
  C6 (the dump). \<^verbatim>\<open>DumpToFd\<close> with \<^verbatim>\<open>current_val_index_\<close> inside \<^verbatim>\<open>req_sorted_\<close> returns, and
  the node after the call is the node before it. A failed write of the header is logged
  and nothing else happens on its account: the dumps of all the groups follow, in order
  of their index, on the world the write left, exactly as after a write that succeeds.
\<close>

theorem DumpToFd_no_mutation:
  "(DumpToFd RV W GD n fd w = Inr (logged, w', n') \<longrightarrow> n' = n)
   \<and> (current_val_index n < length (req_sorted n) \<longrightarrow>
        DumpToFd RV W GD n fd w =
          Inr (if fst (W (dump_header n (RV (req_sorted n ! current_val_index n))) fd w) then []
               else [''Failed to dump fd: '' @ to_string fd],
               foldl (\<lambda>w' i. GD (req_sorted n ! i) fd (req_prefix i) w')
                 (snd (W (dump_header n (RV (req_sorted n ! current_val_index n))) fd w))
                 [0 ..< length (req_sorted n)],
               n))"
  by (auto simp: DumpToFd_def Let_def case_prod_beta split: if_splits)

theorem DumpToFd_no_mutation_witness:
  "current_val_index ex_busy < length (req_sorted ex_busy)
   \<and> DumpToFd ex_GetRequestValue ex_write_fails ex_GroupDumpToFd ex_busy 7 [] =
       Inr ([''Failed to dump fd: 7''],
            [[CHR 0x09, CHR 0x09] @ ''Req0:'' @ [CHR 0x09] @ ''high'',
             [CHR 0x09, CHR 0x09] @ ''Req1:'' @ [CHR 0x09] @ ''mid'',
             [CHR 0x09, CHR 0x09] @ ''Req2:'' @ [CHR 0x09] @ ''low'',
             [CHR 0x09, CHR 0x09] @ ''Req3:'' @ [CHR 0x09] @ ''def''],
            ex_busy)"
proof -
  have c: "current_val_index ex_busy < length (req_sorted ex_busy)"
    by (simp add: ex_busy_def)
  have r: "req_sorted ex_busy =
      [(False, 0, ''high''), (True, 500, ''mid''), (True, 100, ''low''), (False, 0, ''def'')]"
    by (simp add: ex_busy_def)
  have i: "[0 ..< 4] = [0, 1, 2, 3 :: nat]"
    by (simp add: upt_rec)
  note g = DumpToFd_no_mutation [where RV = ex_GetRequestValue and W = ex_write_fails
      and GD = ex_GroupDumpToFd and n = ex_busy and fd = 7 and w = "[]"
      and logged = "[''Failed to dump fd: 7'']"
      and w' = "[[CHR 0x09, CHR 0x09] @ ''Req0:'' @ [CHR 0x09] @ ''high'',
             [CHR 0x09, CHR 0x09] @ ''Req1:'' @ [CHR 0x09] @ ''mid'',
             [CHR 0x09, CHR 0x09] @ ''Req2:'' @ [CHR 0x09] @ ''low'',
             [CHR 0x09, CHR 0x09] @ ''Req3:'' @ [CHR 0x09] @ ''def'']"
      and n' = ex_busy]
  show ?thesis
    using g c
    by (simp add: r i string_of_nat_digit digit_char_def ex_write_fails_def ex_GroupDumpToFd_def
        req_prefix_def to_string_def)
qed

section \<open>Properties of BrownoutDetectedReporter\<close>

text \<open>
  C8 as stated fails: the line \<^verbatim>\<open>battery:99999999999\<close> matches the battery pattern with three
  sub-matches, and \<^verbatim>\<open>updateIfFound\<close> does not return true on it: \<^verbatim>\<open>std::stoi\<close> throws
  \<^verbatim>\<open>std::out_of_range\<close>, which nothing catches.
\<close>

theorem updateIfFound_stoi_counterexample:
  "regex_match ''battery:99999999999'' kBatteryTempPattern =
     Some [''battery:99999999999'', ''battery'', ''99999999999'']
   \<and> READING_IDX + 1 \<le> length [''battery:99999999999'', ''battery'', ''99999999999'']
   \<and> updateIfFound ''battery:99999999999'' kBatteryTempPattern DEFAULT_BATTERY_TEMP kUpdateMin =
       Inl out_of_range"
  by (simp add: updateIfFound_def regex_match_def kBatteryTempPattern_def group_def lits_def
      digit_chars_def READING_IDX_def stoi_def scan_number_def space_chars_def decimal_def
      digit_val_def INT_MAX_def INT_MIN_def)

text \<open>
  C8, amended. On a line that does not match, or matches with fewer than
  \<^verbatim>\<open>READING_IDX + 1\<close> sub-matches, \<^verbatim>\<open>updateIfFound\<close> returns false and leaves
  \<^verbatim>\<open>*current_value\<close>. On a line that matches with at least \<^verbatim>\<open>READING_IDX + 1\<close> sub-matches
  and whose reading \<^verbatim>\<open>std::stoi\<close> converts, it returns true; with \<^verbatim>\<open>kUpdateMax\<close> the value is
  overwritten exactly when the reading is strictly greater, with \<^verbatim>\<open>kUpdateMin\<close> exactly when
  it is strictly smaller. Whenever the function returns, it returns true if and only if
  the line matches with at least \<^verbatim>\<open>READING_IDX + 1\<close> sub-matches.
\<close>

theorem updateIfFound_min_max:
  "(regex_match line pattern = None \<longrightarrow>
      updateIfFound line pattern current_value flag = Inr (False, current_value))
   \<and> (regex_match line pattern = Some pattern_match \<and> length pattern_match < READING_IDX + 1 \<longrightarrow>
      updateIfFound line pattern current_value flag = Inr (False, current_value))
   \<and> (regex_match line pattern = Some pattern_match \<and> READING_IDX + 1 \<le> length pattern_match
        \<and> stoi (pattern_match ! READING_IDX) = Inr reading \<longrightarrow>
      updateIfFound line pattern current_value kUpdateMax =
        Inr (True, if current_value < reading then reading else current_value)
      \<and> updateIfFound line pattern current_value kUpdateMin =
        Inr (True, if reading < current_value then reading else current_value))
   \<and> (updateIfFound line pattern current_value flag = Inr (found, v) \<longrightarrow>
        (found \<longleftrightarrow> (\<exists>pm. regex_match line pattern = Some pm \<and> READING_IDX + 1 \<le> length pm))
        \<and> (\<not> found \<longrightarrow> v = current_value))"
  by (cases flag)
    (auto simp: updateIfFound_def split: option.splits sum.splits if_splits)

theorem updateIfFound_min_max_witness:
  "regex_match ''soc:x'' kBatterySocPattern = None
   \<and> updateIfFound ''soc:x'' kBatterySocPattern 100 kUpdateMin = Inr (False, 100)
   \<and> regex_match ''LASTMEAL_UPDATED'' kAlreadyUpdatedPattern = Some [''LASTMEAL_UPDATED'', ''LASTMEAL_UPDATED'']
   \<and> length [''LASTMEAL_UPDATED'', ''LASTMEAL_UPDATED''] < READING_IDX + 1
   \<and> updateIfFound ''LASTMEAL_UPDATED'' kAlreadyUpdatedPattern 7 kUpdateMax = Inr (False, 7)
   \<and> regex_match ''battery:250'' kBatteryTempPattern = Some [''battery:250'', ''battery'', ''250'']
   \<and> READING_IDX + 1 \<le> length [''battery:250'', ''battery'', ''250'']
   \<and> stoi ([''battery:250'', ''battery'', ''250''] ! READING_IDX) = Inr 250
   \<and> updateIfFound ''battery:250'' kBatteryTempPattern 300 kUpdateMin = Inr (True, 250)
   \<and> updateIfFound ''battery:250'' kBatteryTempPattern 300 kUpdateMax = Inr (True, 300)
   \<and> updateIfFound ''battery:250'' kBatteryTempPattern 200 kUpdateMin = Inr (True, 200)
   \<and> updateIfFound ''battery:250'' kBatteryTempPattern 200 kUpdateMax = Inr (True, 250)
   \<and> updateIfFound ''battery:250'' kBatteryTempPattern 250 kUpdateMax = Inr (True, 250)
   \<and> (\<exists>pm. regex_match ''battery:250'' kBatteryTempPattern = Some pm \<and> READING_IDX + 1 \<le> length pm)"
proof -
  have m0: "regex_match ''soc:x'' kBatterySocPattern = None"
    by (simp add: regex_match_def kBatterySocPattern_def group_def lits_def digit_chars_def)
  have m1: "regex_match ''LASTMEAL_UPDATED'' kAlreadyUpdatedPattern =
      Some [''LASTMEAL_UPDATED'', ''LASTMEAL_UPDATED'']"
    by (simp add: regex_match_def kAlreadyUpdatedPattern_def group_def lits_def)
  have m2: "regex_match ''battery:250'' kBatteryTempPattern = Some [''battery:250'', ''battery'', ''250'']"
    by (simp add: regex_match_def kBatteryTempPattern_def group_def lits_def digit_chars_def)
  have r: "READING_IDX = 2"
    by (simp add: READING_IDX_def)
  have s: "stoi ''250'' = Inr 250"
    by (simp add: stoi_def scan_number_def space_chars_def digit_chars_def decimal_def
        digit_val_def INT_MAX_def INT_MIN_def)
  note g0 = updateIfFound_min_max [where line = "''soc:x''" and pattern = kBatterySocPattern
        and current_value = 100 and flag = kUpdateMin and found = False and v = 100
        and pattern_match = "[]" and reading = 0]
  note g1 = updateIfFound_min_max [where line = "''LASTMEAL_UPDATED''" and pattern = kAlreadyUpdatedPattern
        and current_value = 7 and flag = kUpdateMax and found = False and v = 7
        and pattern_match = "[''LASTMEAL_UPDATED'', ''LASTMEAL_UPDATED'']" and reading = 0]
  note g2 = updateIfFound_min_max [where line = "''battery:250''" and pattern = kBatteryTempPattern
        and current_value = 300 and pattern_match = "[''battery:250'', ''battery'', ''250'']"
        and reading = 250 and flag = kUpdateMin and found = True and v = 250]
  note g3 = updateIfFound_min_max [where line = "''battery:250''" and pattern = kBatteryTempPattern
        and current_value = 200 and pattern_match = "[''battery:250'', ''battery'', ''250'']"
        and reading = 250 and flag = kUpdateMax and found = True and v = 250]
  note g4 = updateIfFound_min_max [where line = "''battery:250''" and pattern = kBatteryTempPattern
        and current_value = 250 and pattern_match = "[''battery:250'', ''battery'', ''250'']"
        and reading = 250 and flag = kUpdateMax and found = True and v = 250]
  have u0: "updateIfFound ''soc:x'' kBatterySocPattern 100 kUpdateMin = Inr (False, 100)"
    using g0 m0 by simp
  have u1: "updateIfFound ''LASTMEAL_UPDATED'' kAlreadyUpdatedPattern 7 kUpdateMax = Inr (False, 7)"
    using g1 m1 by (simp add: r)
  have u2: "updateIfFound ''battery:250'' kBatteryTempPattern 300 kUpdateMin = Inr (True, 250)"
    "updateIfFound ''battery:250'' kBatteryTempPattern 300 kUpdateMax = Inr (True, 300)"
    using g2 m2 s by (simp_all add: r)
  have u3: "updateIfFound ''battery:250'' kBatteryTempPattern 200 kUpdateMin = Inr (True, 200)"
    "updateIfFound ''battery:250'' kBatteryTempPattern 200 kUpdateMax = Inr (True, 250)"
    using g3 m2 s by (simp_all add: r)
  have u4: "updateIfFound ''battery:250'' kBatteryTempPattern 250 kUpdateMax = Inr (True, 250)"
    using g4 m2 s by (simp add: r)
  have e: "\<exists>pm. regex_match ''battery:250'' kBatteryTempPattern = Some pm \<and> READING_IDX + 1 \<le> length pm"
    using g2 u2(1) by blast
  show ?thesis
    using m0 m1 m2 s u0 u1 u2 u3 u4 e by (simp add: r)
qed

subsection \<open>The guard of the upload\<close>

lemma rmatch_lits:
  "rmatch (lits w @ p) s caps cur =
     (if take (length w) s = w then
        rmatch p (drop (length w) s) caps (map_option (\<lambda>t. t @ w) cur)
      else None)"
proof (induction w arbitrary: s cur)
  case Nil
  then show ?case by (simp add: lits_def option.map_ident)
next
  case (Cons a w)
  have step: "\<And>s cur. rmatch (lits w @ p) s caps cur =
     (if take (length w) s = w then
        rmatch p (drop (length w) s) caps (map_option (\<lambda>t. t @ w) cur)
      else None)"
    using Cons.IH by simp
  show ?case
  proof (cases s)
    case Nil
    then show ?thesis by (simp add: lits_def)
  next
    case (Cons c s')
    have "lits (a # w) @ p = One (Lit a) # lits w @ p"
      by (simp add: lits_def)
    then show ?thesis
      using Cons step [of s' "map_option (\<lambda>t. t @ [c]) cur"]
      by (auto simp: option.map_comp o_def)
  qed
qed

lemma regex_match_AlreadyUpdated:
  "(regex_match line kAlreadyUpdatedPattern \<noteq> None) = (line = ''LASTMEAL_UPDATED'')"
proof -
  have "rmatch kAlreadyUpdatedPattern line [] None =
          (if take 16 line = ''LASTMEAL_UPDATED'' then
             (if drop 16 line = [] then Some [''LASTMEAL_UPDATED''] else None)
           else None)"
    using rmatch_lits [of "''LASTMEAL_UPDATED''" "[GroupClose]" line "[]" "Some []"]
    by (simp add: kAlreadyUpdatedPattern_def group_def)
  moreover have "(take 16 line = ''LASTMEAL_UPDATED'' \<and> drop 16 line = []) = (line = ''LASTMEAL_UPDATED'')"
  proof
    assume h: "take 16 line = ''LASTMEAL_UPDATED'' \<and> drop 16 line = []"
    have "line = take 16 line @ drop 16 line" by simp
    then show "line = ''LASTMEAL_UPDATED''" using h by simp
  next
    assume "line = ''LASTMEAL_UPDATED''"
    then show "take 16 line = ''LASTMEAL_UPDATED'' \<and> drop 16 line = []" by simp
  qed
  ultimately show ?thesis
    by (auto simp: regex_match_def split: if_splits)
qed

lemma regex_match_AlreadyUpdated_Some:
  "(\<exists>pm. regex_match line kAlreadyUpdatedPattern = Some pm) = (line = ''LASTMEAL_UPDATED'')"
  using regex_match_AlreadyUpdated [of line] by simp

lemma regex_match_nonempty: "regex_match line pattern = Some pm \<Longrightarrow> pm \<noteq> []"
  by (auto simp: regex_match_def)

lemma log_line_no_Return: "log_line E line st \<noteq> Inr Return"
proof -
  obtain oi di mv where st: "st = (oi, di, mv)" by (cases st) auto
  show ?thesis
  proof (cases "regex_match line kIrqPattern")
    case (Some pm)
    then show ?thesis
      using regex_match_nonempty [OF Some] by (simp add: log_line_def st KEY_IDX_def)
  next
    case None
    then show ?thesis
      by (auto simp: log_line_def st split: sum.splits prod.splits if_splits)
  qed
qed

lemma log_loop_Ended:
  "log_loop E lines st = Inr (Ended b mv) \<Longrightarrow> b = (''LASTMEAL_UPDATED'' \<in> set lines)"
proof (induction lines arbitrary: st)
  case Nil
  then show ?case by simp
next
  case (Cons line rest)
  show ?case
  proof (cases "line = ''LASTMEAL_UPDATED''")
    case True
    then show ?thesis using Cons.prems by (simp add: regex_match_AlreadyUpdated_Some)
  next
    case False
    then obtain st' where "log_line E line st = Inr (Continue st')"
      and "log_loop E rest st' = Inr (Ended b mv)"
      using Cons.prems
      by (auto simp: regex_match_AlreadyUpdated_Some split: sum.splits body_end.splits)
    then show ?thesis using Cons.IH False by auto
  qed
qed

lemma log_loop_no_Returned: "log_loop E lines st \<noteq> Inr Returned"
proof (induction lines arbitrary: st)
  case Nil
  then show ?case by simp
next
  case (Cons line rest)
  then show ?case
    using log_line_no_Return [of E line st]
    by (auto split: sum.splits body_end.splits)
qed

lemma csv_loop_Ended:
  "csv_loop E lines st = Inr (Ended b mv) \<Longrightarrow> b = (''LASTMEAL_UPDATED'' \<in> set lines)"
proof (induction lines arbitrary: st)
  case Nil
  then show ?case by simp
next
  case (Cons line rest)
  show ?case
  proof (cases "line = ''LASTMEAL_UPDATED''")
    case True
    then show ?thesis using Cons.prems by (simp add: regex_match_AlreadyUpdated_Some)
  next
    case False
    then obtain st' where "csv_loop E rest st' = Inr (Ended b mv)"
      using Cons.prems
      by (auto simp: regex_match_AlreadyUpdated_Some split: sum.splits if_splits)
    then show ?thesis using Cons.IH False by auto
  qed
qed

lemma csv_loop_no_Returned: "csv_loop E lines st \<noteq> Inr Returned"
proof (induction lines arbitrary: st)
  case Nil
  then show ?case by simp
next
  case (Cons line rest)
  then show ?case
    by (auto split: sum.splits)
qed

lemma getlines_LASTMEAL:
  "getlines (LASTMEAL_UPDATED_line @ content) = ''LASTMEAL_UPDATED'' # getlines content"
  by (simp add: getlines_def LASTMEAL_UPDATED_line_def)

lemma brownout_reason_initial [simp]: "brownout_reason (initial_max_value E r) = r"
  by (simp add: initial_max_value_def)

lemma logBrownout_acts:
  assumes "logBrownout E path prop = Inr acts" and "acts \<noteq> []"
  shows "\<exists>logFile mv. ReadFileToString E path = Some logFile \<and> 0 \<le> brownoutReasonCheck E prop
      \<and> log_loop E (getlines logFile) (0, 0, initial_max_value E (brownoutReasonCheck E prop))
           = Inr (Ended False mv)
      \<and> ''LASTMEAL_UPDATED'' \<notin> set (getlines logFile)
      \<and> battery_temp mv \<noteq> DEFAULT_BATTERY_TEMP
      \<and> acts = [WriteStringToFile (LASTMEAL_UPDATED_line @ logFile) path, uploadData mv]"
proof -
  let ?r = "brownoutReasonCheck E prop"
  from assms obtain logFile where f: "ReadFileToString E path = Some logFile"
    by (auto simp: logBrownout_def split: option.splits)
  from assms f have r: "0 \<le> ?r"
    by (auto simp: logBrownout_def Let_def split: if_splits)
  from assms f r obtain b mv where
    l: "log_loop E (getlines logFile) (0, 0, initial_max_value E ?r) = Inr (Ended b mv)"
    by (auto simp: logBrownout_def Let_def split: sum.splits loop_end.splits)
  from assms f r l have g: "\<not> b" "battery_temp mv \<noteq> DEFAULT_BATTERY_TEMP"
    and a: "acts = [WriteStringToFile (LASTMEAL_UPDATED_line @ logFile) path, uploadData mv]"
    by (auto simp: logBrownout_def Let_def split: if_splits)
  from log_loop_Ended [OF l] g have "''LASTMEAL_UPDATED'' \<notin> set (getlines logFile)"
    by simp
  then show ?thesis using f r l g a by auto
qed

lemma logBrownout_uploads:
  assumes "ReadFileToString E path = Some logFile" and "0 \<le> brownoutReasonCheck E prop"
    and "log_loop E (getlines logFile) (0, 0, initial_max_value E (brownoutReasonCheck E prop))
           = Inr (Ended b mv)"
    and "''LASTMEAL_UPDATED'' \<notin> set (getlines logFile)"
    and "battery_temp mv \<noteq> DEFAULT_BATTERY_TEMP"
  shows "logBrownout E path prop =
           Inr [WriteStringToFile (LASTMEAL_UPDATED_line @ logFile) path, uploadData mv]"
proof -
  have "\<not> b" using log_loop_Ended [OF assms(3)] assms(4) by simp
  then show ?thesis using assms by (simp add: logBrownout_def Let_def)
qed

lemma logBrownout_second_run:
  assumes "ReadFileToString E path = Some (LASTMEAL_UPDATED_line @ content)"
  shows "logBrownout E path prop = Inr []"
  using assms
  by (simp add: logBrownout_def Let_def getlines_LASTMEAL regex_match_AlreadyUpdated_Some)

lemma logBrownoutCsv_acts:
  assumes "logBrownoutCsv E path prop = Inr acts" and "acts \<noteq> []"
  shows "\<exists>csvFile mv. ReadFileToString E path = Some csvFile \<and> 0 \<le> brownoutReasonCheck E prop
      \<and> csv_loop E (getlines csvFile) (0, initial_max_value E (brownoutReasonCheck E prop))
           = Inr (Ended False mv)
      \<and> ''LASTMEAL_UPDATED'' \<notin> set (getlines csvFile)
      \<and> battery_temp mv \<noteq> DEFAULT_BATTERY_TEMP
      \<and> acts = [WriteStringToFile (LASTMEAL_UPDATED_line @ csvFile) path, uploadData mv]"
proof -
  let ?r = "brownoutReasonCheck E prop"
  from assms obtain csvFile where f: "ReadFileToString E path = Some csvFile"
    by (auto simp: logBrownoutCsv_def split: option.splits)
  from assms f have r: "0 \<le> ?r"
    by (auto simp: logBrownoutCsv_def Let_def split: if_splits)
  from assms f r obtain b mv where
    l: "csv_loop E (getlines csvFile) (0, initial_max_value E ?r) = Inr (Ended b mv)"
    by (auto simp: logBrownoutCsv_def Let_def split: sum.splits loop_end.splits)
  from assms f r l have g: "\<not> b" "battery_temp mv \<noteq> DEFAULT_BATTERY_TEMP"
    and a: "acts = [WriteStringToFile (LASTMEAL_UPDATED_line @ csvFile) path, uploadData mv]"
    by (auto simp: logBrownoutCsv_def Let_def split: if_splits)
  from csv_loop_Ended [OF l] g have "''LASTMEAL_UPDATED'' \<notin> set (getlines csvFile)"
    by simp
  then show ?thesis using f r l g a by auto
qed

lemma logBrownoutCsv_uploads:
  assumes "ReadFileToString E path = Some csvFile" and "0 \<le> brownoutReasonCheck E prop"
    and "csv_loop E (getlines csvFile) (0, initial_max_value E (brownoutReasonCheck E prop))
           = Inr (Ended b mv)"
    and "''LASTMEAL_UPDATED'' \<notin> set (getlines csvFile)"
    and "battery_temp mv \<noteq> DEFAULT_BATTERY_TEMP"
  shows "logBrownoutCsv E path prop =
           Inr [WriteStringToFile (LASTMEAL_UPDATED_line @ csvFile) path, uploadData mv]"
proof -
  have "\<not> b" using csv_loop_Ended [OF assms(3)] assms(4) by simp
  then show ?thesis using assms by (simp add: logBrownoutCsv_def Let_def)
qed

lemma logBrownoutCsv_second_run:
  assumes "ReadFileToString E path = Some (LASTMEAL_UPDATED_line @ content)"
  shows "logBrownoutCsv E path prop = Inr []"
  using assms
  by (simp add: logBrownoutCsv_def Let_def getlines_LASTMEAL regex_match_AlreadyUpdated_Some)

lemma log_loop_stops:
  "log_loop E (pre @ ''LASTMEAL_UPDATED'' # post) st = log_loop E (pre @ [''LASTMEAL_UPDATED'']) st"
  by (induction pre arbitrary: st)
    (auto simp: regex_match_AlreadyUpdated_Some split: sum.splits body_end.splits)

lemma csv_loop_stops:
  "csv_loop E (pre @ ''LASTMEAL_UPDATED'' # post) st = csv_loop E (pre @ [''LASTMEAL_UPDATED'']) st"
  by (induction pre arbitrary: st)
    (auto simp: regex_match_AlreadyUpdated_Some split: sum.splits)

text \<open>
  C10 as stated fails. The file holds \<^verbatim>\<open>battery:250\<close> and then \<^verbatim>\<open>soc:99999999999\<close>: it is
  readable, the reason is known, no line is \<^verbatim>\<open>LASTMEAL_UPDATED\<close>, the first line is parsed
  and sets \<^verbatim>\<open>battery_temp_\<close> to 250, and yet nothing is uploaded and nothing rewritten:
  \<^verbatim>\<open>std::stoi\<close> throws on the second line.
\<close>

theorem logBrownout_guard_counterexample:
  "ReadFileToString (ex_env ex_log_overflow) ''/log'' = Some ex_log_overflow
   \<and> 0 \<le> brownoutReasonCheck (ex_env ex_log_overflow) ''reason''
   \<and> getlines ex_log_overflow = [''battery:250'', ''soc:99999999999'']
   \<and> ''LASTMEAL_UPDATED'' \<notin> set [''battery:250'', ''soc:99999999999'']
   \<and> updateIfFound ''battery:250'' kBatteryTempPattern DEFAULT_BATTERY_TEMP kUpdateMin = Inr (True, 250)
   \<and> 250 \<noteq> DEFAULT_BATTERY_TEMP
   \<and> logBrownout (ex_env ex_log_overflow) ''/log'' ''reason'' = Inl out_of_range"
  by code_simp

text \<open>
  C10, amended. For \<^verbatim>\<open>logBrownout\<close> and for \<^verbatim>\<open>logBrownoutCsv\<close>: a run that does anything
  rewrites the file and then uploads the record, once each, and this happens only when the
  file is readable, \<^verbatim>\<open>brownoutReasonCheck\<close> is not negative, the loop has run to the end of
  the file, no line is \<^verbatim>\<open>LASTMEAL_UPDATED\<close> and \<^verbatim>\<open>battery_temp_\<close> is then not the default.
  Conversely, when the file is readable, the reason is known, the loop runs to its end (it
  is not cut short by \<^verbatim>\<open>std::stoi\<close> or by a row with too few fields), no line is
  \<^verbatim>\<open>LASTMEAL_UPDATED\<close> and \<^verbatim>\<open>battery_temp_\<close> is not the default, the file is rewritten with
  the line \<^verbatim>\<open>LASTMEAL_UPDATED\<close> in front and the record is uploaded. The loop stops at a line
  \<^verbatim>\<open>LASTMEAL_UPDATED\<close>: what follows it is not read. A run on a file that starts with this
  line, so on the file a run has rewritten, does nothing.
\<close>

theorem upload_guard:
  "(logBrownout E path reasonProp = Inr acts \<and> acts \<noteq> [] \<longrightarrow>
      (\<exists>logFile mv. ReadFileToString E path = Some logFile \<and> 0 \<le> brownoutReasonCheck E reasonProp
         \<and> log_loop E (getlines logFile) (0, 0, initial_max_value E (brownoutReasonCheck E reasonProp))
              = Inr (Ended False mv)
         \<and> ''LASTMEAL_UPDATED'' \<notin> set (getlines logFile)
         \<and> battery_temp mv \<noteq> DEFAULT_BATTERY_TEMP
         \<and> acts = [WriteStringToFile (LASTMEAL_UPDATED_line @ logFile) path, uploadData mv]))
   \<and> (ReadFileToString E path = Some fileText \<and> 0 \<le> brownoutReasonCheck E reasonProp
        \<and> log_loop E (getlines fileText) (0, 0, initial_max_value E (brownoutReasonCheck E reasonProp))
             = Inr (Ended b mv)
        \<and> ''LASTMEAL_UPDATED'' \<notin> set (getlines fileText)
        \<and> battery_temp mv \<noteq> DEFAULT_BATTERY_TEMP
      \<longrightarrow> logBrownout E path reasonProp =
            Inr [WriteStringToFile (LASTMEAL_UPDATED_line @ fileText) path, uploadData mv])
   \<and> (ReadFileToString E path = Some (LASTMEAL_UPDATED_line @ content)
      \<longrightarrow> logBrownout E path reasonProp = Inr [])
   \<and> log_loop E (pre @ ''LASTMEAL_UPDATED'' # post) st = log_loop E (pre @ [''LASTMEAL_UPDATED'']) st
   \<and> (logBrownoutCsv E path reasonProp = Inr acts \<and> acts \<noteq> [] \<longrightarrow>
      (\<exists>csvFile mv. ReadFileToString E path = Some csvFile \<and> 0 \<le> brownoutReasonCheck E reasonProp
         \<and> csv_loop E (getlines csvFile) (0, initial_max_value E (brownoutReasonCheck E reasonProp))
              = Inr (Ended False mv)
         \<and> ''LASTMEAL_UPDATED'' \<notin> set (getlines csvFile)
         \<and> battery_temp mv \<noteq> DEFAULT_BATTERY_TEMP
         \<and> acts = [WriteStringToFile (LASTMEAL_UPDATED_line @ csvFile) path, uploadData mv]))
   \<and> (ReadFileToString E path = Some fileText \<and> 0 \<le> brownoutReasonCheck E reasonProp
        \<and> csv_loop E (getlines fileText) (0, initial_max_value E (brownoutReasonCheck E reasonProp))
             = Inr (Ended b' mv')
        \<and> ''LASTMEAL_UPDATED'' \<notin> set (getlines fileText)
        \<and> battery_temp mv' \<noteq> DEFAULT_BATTERY_TEMP
      \<longrightarrow> logBrownoutCsv E path reasonProp =
            Inr [WriteStringToFile (LASTMEAL_UPDATED_line @ fileText) path, uploadData mv'])
   \<and> (ReadFileToString E path = Some (LASTMEAL_UPDATED_line @ content)
      \<longrightarrow> logBrownoutCsv E path reasonProp = Inr [])
   \<and> csv_loop E (pre @ ''LASTMEAL_UPDATED'' # post) st' = csv_loop E (pre @ [''LASTMEAL_UPDATED'']) st'"
proof (intro conjI impI)
  assume "logBrownout E path reasonProp = Inr acts \<and> acts \<noteq> []"
  then show "\<exists>logFile mv. ReadFileToString E path = Some logFile \<and> 0 \<le> brownoutReasonCheck E reasonProp
         \<and> log_loop E (getlines logFile) (0, 0, initial_max_value E (brownoutReasonCheck E reasonProp))
              = Inr (Ended False mv)
         \<and> ''LASTMEAL_UPDATED'' \<notin> set (getlines logFile)
         \<and> battery_temp mv \<noteq> DEFAULT_BATTERY_TEMP
         \<and> acts = [WriteStringToFile (LASTMEAL_UPDATED_line @ logFile) path, uploadData mv]"
    using logBrownout_acts [of E path reasonProp acts] by simp
next
  assume "ReadFileToString E path = Some fileText \<and> 0 \<le> brownoutReasonCheck E reasonProp
        \<and> log_loop E (getlines fileText) (0, 0, initial_max_value E (brownoutReasonCheck E reasonProp))
             = Inr (Ended b mv)
        \<and> ''LASTMEAL_UPDATED'' \<notin> set (getlines fileText)
        \<and> battery_temp mv \<noteq> DEFAULT_BATTERY_TEMP"
  then show "logBrownout E path reasonProp =
            Inr [WriteStringToFile (LASTMEAL_UPDATED_line @ fileText) path, uploadData mv]"
    using logBrownout_uploads [of E path fileText reasonProp b mv] by simp
next
  assume "ReadFileToString E path = Some (LASTMEAL_UPDATED_line @ content)"
  then show "logBrownout E path reasonProp = Inr []"
    by (rule logBrownout_second_run)
next
  show "log_loop E (pre @ ''LASTMEAL_UPDATED'' # post) st = log_loop E (pre @ [''LASTMEAL_UPDATED'']) st"
    by (rule log_loop_stops)
next
  assume "logBrownoutCsv E path reasonProp = Inr acts \<and> acts \<noteq> []"
  then show "\<exists>csvFile mv. ReadFileToString E path = Some csvFile \<and> 0 \<le> brownoutReasonCheck E reasonProp
         \<and> csv_loop E (getlines csvFile) (0, initial_max_value E (brownoutReasonCheck E reasonProp))
              = Inr (Ended False mv)
         \<and> ''LASTMEAL_UPDATED'' \<notin> set (getlines csvFile)
         \<and> battery_temp mv \<noteq> DEFAULT_BATTERY_TEMP
         \<and> acts = [WriteStringToFile (LASTMEAL_UPDATED_line @ csvFile) path, uploadData mv]"
    using logBrownoutCsv_acts [of E path reasonProp acts] by simp
next
  assume "ReadFileToString E path = Some fileText \<and> 0 \<le> brownoutReasonCheck E reasonProp
        \<and> csv_loop E (getlines fileText) (0, initial_max_value E (brownoutReasonCheck E reasonProp))
             = Inr (Ended b' mv')
        \<and> ''LASTMEAL_UPDATED'' \<notin> set (getlines fileText)
        \<and> battery_temp mv' \<noteq> DEFAULT_BATTERY_TEMP"
  then show "logBrownoutCsv E path reasonProp =
            Inr [WriteStringToFile (LASTMEAL_UPDATED_line @ fileText) path, uploadData mv']"
    using logBrownoutCsv_uploads [of E path fileText reasonProp b' mv'] by simp
next
  assume "ReadFileToString E path = Some (LASTMEAL_UPDATED_line @ content)"
  then show "logBrownoutCsv E path reasonProp = Inr []"
    by (rule logBrownoutCsv_second_run)
next
  show "csv_loop E (pre @ ''LASTMEAL_UPDATED'' # post) st' = csv_loop E (pre @ [''LASTMEAL_UPDATED'']) st'"
    by (rule csv_loop_stops)
qed

theorem upload_guard_witness:
  "ReadFileToString (ex_env ex_log) ''/log'' = Some ex_log
   \<and> 0 \<le> brownoutReasonCheck (ex_env ex_log) ''reason''
   \<and> log_loop (ex_env ex_log) (getlines ex_log)
        (0, 0, initial_max_value (ex_env ex_log) (brownoutReasonCheck (ex_env ex_log) ''reason''))
      = Inr (Ended False ((initial_max_value (ex_env ex_log) 1)\<lparr>battery_temp := 250, battery_soc := 87\<rparr>))
   \<and> ''LASTMEAL_UPDATED'' \<notin> set (getlines ex_log)
   \<and> battery_temp ((initial_max_value (ex_env ex_log) 1)\<lparr>battery_temp := 250, battery_soc := 87\<rparr>)
        \<noteq> DEFAULT_BATTERY_TEMP
   \<and> logBrownout (ex_env ex_log) ''/log'' ''reason'' =
        Inr [WriteStringToFile (LASTMEAL_UPDATED_line @ ex_log) ''/log'',
             uploadData ((initial_max_value (ex_env ex_log) 1)\<lparr>battery_temp := 250, battery_soc := 87\<rparr>)]
   \<and> (\<exists>logFile mv. ReadFileToString (ex_env ex_log) ''/log'' = Some logFile
         \<and> ''LASTMEAL_UPDATED'' \<notin> set (getlines logFile)
         \<and> battery_temp mv \<noteq> DEFAULT_BATTERY_TEMP
         \<and> [WriteStringToFile (LASTMEAL_UPDATED_line @ ex_log) ''/log'',
             uploadData ((initial_max_value (ex_env ex_log) 1)\<lparr>battery_temp := 250, battery_soc := 87\<rparr>)]
            = [WriteStringToFile (LASTMEAL_UPDATED_line @ logFile) ''/log'', uploadData mv])
   \<and> ReadFileToString (ex_env (LASTMEAL_UPDATED_line @ ex_log)) ''/log'' = Some (LASTMEAL_UPDATED_line @ ex_log)
   \<and> logBrownout (ex_env (LASTMEAL_UPDATED_line @ ex_log)) ''/log'' ''reason'' = Inr []
   \<and> ReadFileToString (ex_env ex_csv) ''/log'' = Some ex_csv
   \<and> 0 \<le> brownoutReasonCheck (ex_env ex_csv) ''reason''
   \<and> csv_loop (ex_env ex_csv) (getlines ex_csv)
        (0, initial_max_value (ex_env ex_csv) (brownoutReasonCheck (ex_env ex_csv) ''reason''))
      = Inr (Ended False ((initial_max_value (ex_env ex_csv) 1)
              \<lparr>triggered_irq := 2, battery_temp := 250, battery_soc := 87, battery_cycle := 3,
               voltage_now := 4000, odpm_value := [8], dvfs_value := [7]\<rparr>))
   \<and> ''LASTMEAL_UPDATED'' \<notin> set (getlines ex_csv)
   \<and> logBrownoutCsv (ex_env ex_csv) ''/log'' ''reason'' =
        Inr [WriteStringToFile (LASTMEAL_UPDATED_line @ ex_csv) ''/log'',
             uploadData ((initial_max_value (ex_env ex_csv) 1)
              \<lparr>triggered_irq := 2, battery_temp := 250, battery_soc := 87, battery_cycle := 3,
               voltage_now := 4000, odpm_value := [8], dvfs_value := [7]\<rparr>)]
   \<and> (\<exists>csvFile mv. ReadFileToString (ex_env ex_csv) ''/log'' = Some csvFile
         \<and> ''LASTMEAL_UPDATED'' \<notin> set (getlines csvFile)
         \<and> battery_temp mv \<noteq> DEFAULT_BATTERY_TEMP
         \<and> [WriteStringToFile (LASTMEAL_UPDATED_line @ ex_csv) ''/log'',
             uploadData ((initial_max_value (ex_env ex_csv) 1)
              \<lparr>triggered_irq := 2, battery_temp := 250, battery_soc := 87, battery_cycle := 3,
               voltage_now := 4000, odpm_value := [8], dvfs_value := [7]\<rparr>)]
            = [WriteStringToFile (LASTMEAL_UPDATED_line @ csvFile) ''/log'', uploadData mv])
   \<and> ReadFileToString (ex_env (LASTMEAL_UPDATED_line @ ex_csv)) ''/log'' = Some (LASTMEAL_UPDATED_line @ ex_csv)
   \<and> logBrownoutCsv (ex_env (LASTMEAL_UPDATED_line @ ex_csv)) ''/log'' ''reason'' = Inr []"
proof -
  let ?mv = "(initial_max_value (ex_env ex_log) 1)\<lparr>battery_temp := 250, battery_soc := 87\<rparr>"
  let ?cv = "(initial_max_value (ex_env ex_csv) 1)
              \<lparr>triggered_irq := 2, battery_temp := 250, battery_soc := 87, battery_cycle := 3,
               voltage_now := 4000, odpm_value := [8], dvfs_value := [7]\<rparr>"
  let ?la = "[WriteStringToFile (LASTMEAL_UPDATED_line @ ex_log) ''/log'', uploadData ?mv]"
  let ?ca = "[WriteStringToFile (LASTMEAL_UPDATED_line @ ex_csv) ''/log'', uploadData ?cv]"
  have f1: "ReadFileToString (ex_env ex_log) ''/log'' = Some ex_log"
    by (simp add: ex_env_def)
  have r1: "0 \<le> brownoutReasonCheck (ex_env ex_log) ''reason''"
    by code_simp
  have l1: "log_loop (ex_env ex_log) (getlines ex_log)
        (0, 0, initial_max_value (ex_env ex_log) (brownoutReasonCheck (ex_env ex_log) ''reason''))
      = Inr (Ended False ?mv)"
    by code_simp
  have n1: "''LASTMEAL_UPDATED'' \<notin> set (getlines ex_log)"
    by code_simp
  have t1: "battery_temp ?mv \<noteq> DEFAULT_BATTERY_TEMP"
    by (simp add: DEFAULT_BATTERY_TEMP_def)
  have f2: "ReadFileToString (ex_env (LASTMEAL_UPDATED_line @ ex_log)) ''/log''
      = Some (LASTMEAL_UPDATED_line @ ex_log)"
    by (simp add: ex_env_def)
  have f3: "ReadFileToString (ex_env ex_csv) ''/log'' = Some ex_csv"
    by (simp add: ex_env_def)
  have r3: "0 \<le> brownoutReasonCheck (ex_env ex_csv) ''reason''"
    by code_simp
  have l3: "csv_loop (ex_env ex_csv) (getlines ex_csv)
        (0, initial_max_value (ex_env ex_csv) (brownoutReasonCheck (ex_env ex_csv) ''reason''))
      = Inr (Ended False ?cv)"
    by code_simp
  have n3: "''LASTMEAL_UPDATED'' \<notin> set (getlines ex_csv)"
    by code_simp
  have t3: "battery_temp ?cv \<noteq> DEFAULT_BATTERY_TEMP"
    by (simp add: DEFAULT_BATTERY_TEMP_def)
  have f4: "ReadFileToString (ex_env (LASTMEAL_UPDATED_line @ ex_csv)) ''/log''
      = Some (LASTMEAL_UPDATED_line @ ex_csv)"
    by (simp add: ex_env_def)
  note g1 = upload_guard [where E = "ex_env ex_log" and path = "''/log''" and reasonProp = "''reason''"
      and fileText = ex_log and b = False and mv = ?mv and acts = ?la]
  note g2 = upload_guard [where E = "ex_env (LASTMEAL_UPDATED_line @ ex_log)" and path = "''/log''"
      and reasonProp = "''reason''" and content = ex_log]
  note g3 = upload_guard [where E = "ex_env ex_csv" and path = "''/log''" and reasonProp = "''reason''"
      and fileText = ex_csv and b' = False and mv' = ?cv and acts = ?ca]
  note g4 = upload_guard [where E = "ex_env (LASTMEAL_UPDATED_line @ ex_csv)" and path = "''/log''"
      and reasonProp = "''reason''" and content = ex_csv]
  have u1: "logBrownout (ex_env ex_log) ''/log'' ''reason'' = Inr ?la"
    using g1 f1 r1 l1 n1 t1 by blast
  have a1: "?la \<noteq> []"
    by simp
  have e1: "\<exists>logFile mv. ReadFileToString (ex_env ex_log) ''/log'' = Some logFile
         \<and> ''LASTMEAL_UPDATED'' \<notin> set (getlines logFile)
         \<and> battery_temp mv \<noteq> DEFAULT_BATTERY_TEMP
         \<and> ?la = [WriteStringToFile (LASTMEAL_UPDATED_line @ logFile) ''/log'', uploadData mv]"
    using g1 u1 a1 by blast
  have u2: "logBrownout (ex_env (LASTMEAL_UPDATED_line @ ex_log)) ''/log'' ''reason'' = Inr []"
    using g2 f2 by blast
  have u3: "logBrownoutCsv (ex_env ex_csv) ''/log'' ''reason'' = Inr ?ca"
    using g3 f3 r3 l3 n3 t3 by blast
  have a3: "?ca \<noteq> []"
    by simp
  have e3: "\<exists>csvFile mv. ReadFileToString (ex_env ex_csv) ''/log'' = Some csvFile
         \<and> ''LASTMEAL_UPDATED'' \<notin> set (getlines csvFile)
         \<and> battery_temp mv \<noteq> DEFAULT_BATTERY_TEMP
         \<and> ?ca = [WriteStringToFile (LASTMEAL_UPDATED_line @ csvFile) ''/log'', uploadData mv]"
    using g3 u3 a3 by blast
  have u4: "logBrownoutCsv (ex_env (LASTMEAL_UPDATED_line @ ex_csv)) ''/log'' ''reason'' = Inr []"
    using g4 f4 by blast
  show ?thesis
    using f1 r1 l1 n1 t1 u1 e1 f2 u2 f3 r3 l3 n3 u3 e3 f4 u4 by blast
qed

end
